theory Spec2Isabelle
  imports Main "HOL-Library.Word"
begin

unbundle bit_operations_syntax

section \<open>Connection pool (pool.go)\<close>

text \<open>
  An underlying connection (a value of the interface \<open>Conn\<close>) is identified by a number.
  \<open>Pool.conns\<close> is a buffered channel: its contents are a queue, oldest first, and its
  capacity is the \<open>maxIdle\<close> given to \<open>NewPool\<close>. A channel send or receive is one
  atomic step, so concurrent callers are modelled by interleaving \<open>Get\<close> and \<open>Close\<close>.
\<close>

type_synonym Conn = nat

record Pool =
  conns :: "Conn list"
  capacity :: nat

text \<open>\<open>pooledConnection\<close>: the embedded \<open>Conn\<close> is \<open>None\<close> when it is nil.\<close>

record pooledConnection =
  Conn :: "Conn option"

text \<open>
  The pool together with what it can observe of its connections: \<open>errs\<close> holds the
  connections whose \<open>Err()\<close> is not nil, \<open>closed\<close> logs every call of an underlying
  connection's own \<open>Close\<close>, \<open>handles\<close> are the handles \<open>Get\<close> has returned so far.
\<close>

record State =
  pool :: Pool
  errs :: "Conn set"
  closed :: "Conn list"
  handles :: "pooledConnection list"

text \<open>\<open>make(chan Conn, maxIdle)\<close> panics for a negative size.\<close>

definition NewPool :: "int \<Rightarrow> string + State" where
  "NewPool maxIdle =
     (if maxIdle < 0 then Inl ''makechan: size out of range''
      else Inr \<lparr>pool = \<lparr>conns = [], capacity = nat maxIdle\<rparr>, errs = {}, closed = [],
                handles = []\<rparr>)"

text \<open>
  \<open>Get\<close>: \<open>newFn\<close> is what the factory returns if it is called (an error, or a connection
  that may be nil). The factory is called only when the channel is empty.
\<close>

definition Get :: "(string + Conn option) \<Rightarrow> State \<Rightarrow> (string + pooledConnection) \<times> State" where
  "Get newFn s =
     (case conns (pool s) of
        c # rest \<Rightarrow> (Inr \<lparr>Conn = Some c\<rparr>, s\<lparr>pool := (pool s)\<lparr>conns := rest\<rparr>\<rparr>)
      | [] \<Rightarrow>
          (case newFn of
             Inl err \<Rightarrow> (Inl err, s)
           | Inr c \<Rightarrow> (Inr \<lparr>Conn = c\<rparr>, s)))"

text \<open>\<open>pooledConnection.Close\<close>; it returns nil on every path, so only the effects are kept.\<close>

definition Close :: "pooledConnection \<Rightarrow> State \<Rightarrow> pooledConnection \<times> State" where
  "Close c s =
     (case Conn c of
        None \<Rightarrow> (c, s)
      | Some u \<Rightarrow>
          if u \<in> errs s then (c, s)
          else if length (conns (pool s)) < capacity (pool s)
            then (c\<lparr>Conn := None\<rparr>, s\<lparr>pool := (pool s)\<lparr>conns := conns (pool s) @ [u]\<rparr>\<rparr>)
            else (c\<lparr>Conn := None\<rparr>, s\<lparr>closed := closed s @ [u]\<rparr>))"

text \<open>
  A run of the pool: \<open>OpGet r\<close> calls \<open>Get\<close> with factory result \<open>r\<close> and keeps the handle,
  \<open>OpClose i\<close> closes the \<open>i\<close>-th handle returned so far, \<open>OpFail c\<close> is connection \<open>c\<close>
  recording a permanent error.
\<close>

datatype op = OpGet "string + Conn option" | OpClose nat | OpFail Conn

definition step :: "State \<Rightarrow> op \<Rightarrow> State" where
  "step s x =
     (case x of
        OpGet r \<Rightarrow>
          (case Get r s of
             (Inl err, s') \<Rightarrow> s'
           | (Inr h, s') \<Rightarrow> s'\<lparr>handles := handles s' @ [h]\<rparr>)
      | OpClose i \<Rightarrow>
          (if i < length (handles s)
           then (case Close (handles s ! i) s of
                   (h, s') \<Rightarrow> s'\<lparr>handles := (handles s')[i := h]\<rparr>)
           else s)
      | OpFail c \<Rightarrow> s\<lparr>errs := insert c (errs s)\<rparr>)"

definition run :: "State \<Rightarrow> op list \<Rightarrow> State" where
  "run s ops = foldl step s ops"

definition idle_bounded :: "State \<Rightarrow> bool" where
  "idle_bounded s = (length (conns (pool s)) \<le> capacity (pool s))"

section \<open>Object identifiers\<close>

type_synonym byte = "8 word"

text \<open>
  \<open>time.Time\<close> as far as the driver reads it: \<open>Unix()\<close> (an int64) and \<open>Nanosecond()\<close>.
\<close>

record Time =
  Unix :: "64 word"
  Nanosecond :: nat

text \<open>\<open>u\<close> is an int64, so \<open>>>\<close> is the arithmetic shift; \<open>c\<close> is a uint64.\<close>

definition newObjectId :: "Time \<Rightarrow> 64 word \<Rightarrow> byte list" where
  "newObjectId t c =
     (let u = Unix t in
      [ucast (signed_drop_bit 24 u), ucast (signed_drop_bit 16 u),
       ucast (signed_drop_bit 8 u), ucast u,
       ucast (drop_bit 56 c), ucast (drop_bit 48 c), ucast (drop_bit 40 c),
       ucast (drop_bit 32 c), ucast (drop_bit 24 c), ucast (drop_bit 16 c),
       ucast (drop_bit 8 c), ucast c])"

text \<open>
  \<open>nextOidCounter\<close>: the state is the package variable \<open>oidCounter\<close>; \<open>rnd\<close> is what
  reading eight bytes of \<open>rand.Reader\<close> gives if it is read (an error panics). The result
  is the returned counter and the new \<open>oidCounter\<close>.
\<close>

definition nextOidCounter :: "(string + 64 word) \<Rightarrow> 64 word \<Rightarrow> string + (64 word \<times> 64 word)" where
  "nextOidCounter rnd oidCounter =
     (if oidCounter = 0
      then (case rnd of
              Inl err \<Rightarrow> Inl err
            | Inr r \<Rightarrow> Inr (r + 1, r + 1))
      else Inr (oidCounter + 1, oidCounter + 1))"

text \<open>\<open>NewObjectId\<close>: \<open>now\<close> is what \<open>time.Now()\<close> returns.\<close>

definition NewObjectId :: "Time \<Rightarrow> (string + 64 word) \<Rightarrow> 64 word \<Rightarrow> string + (byte list \<times> 64 word)" where
  "NewObjectId now rnd oidCounter =
     (case nextOidCounter rnd oidCounter of
        Inl err \<Rightarrow> Inl err
      | Inr (c, oidCounter') \<Rightarrow> Inr (newObjectId now c, oidCounter'))"

text \<open>The four bytes \<open>b0 b1 b2 b3\<close> read as a big-endian 32-bit number.\<close>

definition bigEndian32 :: "byte list \<Rightarrow> 32 word" where
  "bigEndian32 bs = foldl (\<lambda>acc b. push_bit 8 acc OR ucast b) 0 bs"

section \<open>Types and values as the encoder sees them through reflection\<close>

text \<open>\<open>reflect.Kind\<close>.\<close>

datatype Kind =
    KInvalid | KBool | KInt | KInt8 | KInt16 | KInt32 | KInt64
  | KUint | KUint8 | KUint16 | KUint32 | KUint64 | KUintptr
  | KFloat32 | KFloat64 | KComplex64 | KComplex128
  | KArray | KChan | KFunc | KInterface | KMap | KPtr | KSlice | KString | KStruct
  | KUnsafePointer

text \<open>
  \<open>reflect.Type\<close>. The predeclared types, the composite types, struct types with their
  fields, and the driver's defined types that have an encoder of their own in
  \<open>typeEncoder\<close> (\<open>D\<close>, \<open>Code\<close>, \<open>Symbol\<close>, \<open>ObjectId\<close>, \<open>MinMax\<close>, \<open>Timestamp\<close>; the
  struct types \<open>BSONData\<close>, \<open>CodeWithScope\<close>, \<open>Regexp\<close> and \<open>time.Time\<close> are the
  constants below). \<open>TNamed n t\<close> is any other defined type, of name \<open>n\<close> and underlying
  type \<open>t\<close>: the encoder reads only its kind, \<open>reflect\<close> also tells it from \<open>t\<close> where a
  value of one type is assigned to the other. A struct field carries what
  \<open>compileStructSpec\<close> reads of it: \<open>Name\<close>, \<open>PkgPath\<close> (empty for an exported field),
  \<open>Anonymous\<close>, \<open>Type\<close> and the value of \<open>Tag.Get("bson")\<close>.
\<close>

datatype gotype =
    TBool | TInt | TInt8 | TInt16 | TInt32 | TInt64
  | TUint | TUint8 | TUint16 | TUint32 | TUint64 | TUintptr
  | TFloat32 | TFloat64 | TComplex64 | TComplex128 | TString | TUnsafePointer
  | TInterface | TFunc string | TChan gotype | TPtr gotype | TSlice gotype
  | TArray nat gotype | TMap gotype gotype
  | TStruct string "StructField list"
  | TD | TCode | TSymbol | TObjectId | TMinMax | TTimestamp
  | TNamed string gotype
and StructField =
    StructField (fName: string) (fPkgPath: string) (fAnonymous: bool) (fType: gotype)
      (fTag: string)

fun kindOf :: "gotype \<Rightarrow> Kind" where
  "kindOf TBool = KBool"
| "kindOf TInt = KInt"
| "kindOf TInt8 = KInt8"
| "kindOf TInt16 = KInt16"
| "kindOf TInt32 = KInt32"
| "kindOf TInt64 = KInt64"
| "kindOf TUint = KUint"
| "kindOf TUint8 = KUint8"
| "kindOf TUint16 = KUint16"
| "kindOf TUint32 = KUint32"
| "kindOf TUint64 = KUint64"
| "kindOf TUintptr = KUintptr"
| "kindOf TFloat32 = KFloat32"
| "kindOf TFloat64 = KFloat64"
| "kindOf TComplex64 = KComplex64"
| "kindOf TComplex128 = KComplex128"
| "kindOf TString = KString"
| "kindOf TUnsafePointer = KUnsafePointer"
| "kindOf TInterface = KInterface"
| "kindOf (TFunc _) = KFunc"
| "kindOf (TChan _) = KChan"
| "kindOf (TPtr _) = KPtr"
| "kindOf (TSlice _) = KSlice"
| "kindOf (TArray _ _) = KArray"
| "kindOf (TMap _ _) = KMap"
| "kindOf (TStruct _ _) = KStruct"
| "kindOf TD = KSlice"
| "kindOf TCode = KString"
| "kindOf TSymbol = KString"
| "kindOf TObjectId = KString"
| "kindOf TMinMax = KInt"
| "kindOf TTimestamp = KInt64"
| "kindOf (TNamed _ t) = kindOf t"

definition typeBSONData :: gotype where
  "typeBSONData = TStruct ''BSONData''
     [StructField ''Kind'' [] False TInt [],
      StructField ''Data'' [] False (TSlice TUint8) []]"

definition typeCodeWithScope :: gotype where
  "typeCodeWithScope = TStruct ''CodeWithScope''
     [StructField ''Code'' [] False TString [],
      StructField ''Scope'' [] False (TMap TString TInterface) []]"

definition typeRegexp :: gotype where
  "typeRegexp = TStruct ''Regexp''
     [StructField ''Pattern'' [] False TString [],
      StructField ''Options'' [] False TString []]"

text \<open>All fields of \<open>time.Time\<close> are unexported (their \<open>PkgPath\<close> is \<open>time\<close>).\<close>

definition typeTime :: gotype where
  "typeTime = TStruct ''Time''
     [StructField ''wall'' ''time'' False TUint64 [],
      StructField ''ext'' ''time'' False TInt64 [],
      StructField ''loc'' ''time'' False (TPtr (TStruct ''Location'' [])) []]"

text \<open>
  \<open>reflect.Value\<close>. \<open>VInvalid\<close> is the zero Value (\<open>reflect.ValueOf(nil)\<close>). An integer
  holds its bits at its own width; \<open>int\<close> and \<open>uint\<close> are 64 bits wide. A float holds
  \<open>math.Float64bits(v.Float())\<close>. A slice, map or pointer is \<open>None\<close> when nil; a map
  is the list of its entries in the order \<open>MapKeys\<close> happens to return them (keys
  distinct), with string keys written as strings. A struct value holds its fields in
  declaration order. A \<open>time.Time\<close> is a \<open>VTime\<close>; values of the other three struct
  types above are \<open>VStruct\<close>s of that type. \<open>VOther t\<close> is a value of a type \<open>t\<close> whose
  kind is \<open>Uintptr\<close>, \<open>Complex64\<close>, \<open>Complex128\<close>, \<open>Chan\<close>, \<open>Func\<close> or \<open>UnsafePointer\<close>.
  The values without elements of their own are collected in the type \<open>scalar\<close>; a
  scalar is held under the type that has its encoder, so the name of another defined
  boolean, integer, float or string type is not kept with its values.
\<close>

datatype scalar =
    VBool bool
  | VInt "64 word" | VInt8 "8 word" | VInt16 "16 word" | VInt32 "32 word" | VInt64 "64 word"
  | VUint "64 word" | VUint8 "8 word" | VUint16 "16 word" | VUint32 "32 word"
  | VUint64 "64 word"
  | VFloat32 "64 word" | VFloat64 "64 word"
  | VString string
  | VCode string | VSymbol string | VObjectId string
  | VMinMax "64 word" | VTimestamp "64 word"
  | VTime Time

datatype val =
    VInvalid
  | VScalar scalar
  | VD "(string \<times> val) list option"
  | VMap gotype gotype "(string \<times> val) list option"
  | VSlice gotype "val list option"
  | VArray gotype "val list"
  | VPtr gotype "val option"
  | VInterface "val option"
  | VStruct string "StructField list" "val list"
  | VOther gotype

text \<open>\<open>v.Type()\<close>; it panics on the zero Value, which is \<open>None\<close> here.\<close>

fun scalarType :: "scalar \<Rightarrow> gotype" where
  "scalarType (VBool _) = TBool"
| "scalarType (VInt _) = TInt"
| "scalarType (VInt8 _) = TInt8"
| "scalarType (VInt16 _) = TInt16"
| "scalarType (VInt32 _) = TInt32"
| "scalarType (VInt64 _) = TInt64"
| "scalarType (VUint _) = TUint"
| "scalarType (VUint8 _) = TUint8"
| "scalarType (VUint16 _) = TUint16"
| "scalarType (VUint32 _) = TUint32"
| "scalarType (VUint64 _) = TUint64"
| "scalarType (VFloat32 _) = TFloat32"
| "scalarType (VFloat64 _) = TFloat64"
| "scalarType (VString _) = TString"
| "scalarType (VCode _) = TCode"
| "scalarType (VSymbol _) = TSymbol"
| "scalarType (VObjectId _) = TObjectId"
| "scalarType (VMinMax _) = TMinMax"
| "scalarType (VTimestamp _) = TTimestamp"
| "scalarType (VTime _) = typeTime"

fun typeOf :: "val \<Rightarrow> gotype option" where
  "typeOf VInvalid = None"
| "typeOf (VScalar s) = Some (scalarType s)"
| "typeOf (VD _) = Some TD"
| "typeOf (VMap k t _) = Some (TMap k t)"
| "typeOf (VSlice t _) = Some (TSlice t)"
| "typeOf (VArray t vs) = Some (TArray (length vs) t)"
| "typeOf (VPtr t _) = Some (TPtr t)"
| "typeOf (VInterface _) = Some TInterface"
| "typeOf (VStruct n fs _) = Some (TStruct n fs)"
| "typeOf (VOther t) = Some t"

section \<open>The compiled field mapping of a struct type\<close>

record fieldSpec =
  fs_name :: string
  fs_index :: "nat list"
  fs_omitEmpty :: bool

text \<open>
  \<open>structSpec\<close>: \<open>ss_m\<close> is the map by name (read by the decoder), \<open>ss_l\<close> the list the
  encoder walks, \<open>ss_fields\<close> the projection document of \<open>StructFields\<close>.
\<close>

record structSpec =
  ss_m :: "string \<rightharpoonup> fieldSpec"
  ss_l :: "fieldSpec list"
  ss_fields :: "(string \<times> val) list"

definition defaultFieldSpec :: fieldSpec where
  "defaultFieldSpec = \<lparr>fs_name = [], fs_index = [], fs_omitEmpty = False\<rparr>"

text \<open>\<open>strings.Contains\<close> and \<open>strings.Split\<close> (for a separator of one character).\<close>

fun Contains :: "string \<Rightarrow> string \<Rightarrow> bool" where
  "Contains [] substr = (substr = [])"
| "Contains (c # s) substr = (take (length substr) (c # s) = substr \<or> Contains s substr)"

fun Split :: "string \<Rightarrow> char \<Rightarrow> string list" where
  "Split [] sep = [[]]"
| "Split (c # s) sep =
     (if c = sep then [] # Split s sep
      else (case Split s sep of
              [] \<Rightarrow> [[c]]
            | p # ps \<Rightarrow> (c # p) # ps))"

text \<open>
  The loop over \<open>p[1:]\<close> in \<open>compileStructSpec\<close>: every flag must be \<open>omitempty\<close>; any
  other flag panics with an error value that is not the encoder's \<open>aborted\<close> wrapper.
\<close>

fun compileFlags :: "string \<Rightarrow> string list \<Rightarrow> fieldSpec \<Rightarrow> string + fieldSpec" where
  "compileFlags tname [] fs = Inr fs"
| "compileFlags tname (s # rest) fs =
     (if s = ''omitempty'' then compileFlags tname rest (fs\<lparr>fs_omitEmpty := True\<rparr>)
      else Inl (''bson: unknown field flag '' @ s @ '' for type '' @ tname))"

text \<open>
  The \<open>default\<close> case of the switch in \<open>compileStructSpec\<close>, for the field \<open>f\<close> at position
  \<open>i\<close> of the type named \<open>tname\<close>. \<open>depth\<close> and \<open>ss\<close> are updated in place in the source
  and returned here.
\<close>

definition compileField ::
  "string \<Rightarrow> StructField \<Rightarrow> nat \<Rightarrow> (string \<rightharpoonup> nat) \<Rightarrow> nat list \<Rightarrow> structSpec
     \<Rightarrow> string + ((string \<rightharpoonup> nat) \<times> structSpec)" where
  "compileField tname f i depth index ss =
     (let fs = \<lparr>fs_name = fName f, fs_index = [], fs_omitEmpty = False\<rparr>;
          tag = fTag f
      in if Contains tag ''/c'' then Inl ''use ,omitempty instead of /c in bson field tag''
         else
           let p = Split tag (CHR '','')
           in case (if length p > 0 \<and> hd p \<noteq> ''-''
                    then compileFlags tname (tl p)
                           (if length (hd p) > 0 then fs\<lparr>fs_name := hd p\<rparr> else fs)
                    else Inr fs) of
                Inl msg \<Rightarrow> Inl msg
              | Inr fs \<Rightarrow>
                  let d = (case depth (fs_name fs) of Some d \<Rightarrow> d | None \<Rightarrow> 2 ^ 30)
                  in if length index = d
                     then Inr (depth,
                            ss\<lparr>ss_m := (ss_m ss)(fs_name fs := None),
                               ss_l := filter (\<lambda>x. fs_name fs \<noteq> fs_name x) (ss_l ss)\<rparr>)
                     else if length index < d
                     then (let fs = fs\<lparr>fs_index := index @ [i]\<rparr>
                           in Inr (depth(fs_name fs \<mapsto> length index),
                                ss\<lparr>ss_m := (ss_m ss)(fs_name fs \<mapsto> fs),
                                   ss_l := ss_l ss @ [fs]\<rparr>))
                     else Inr (depth, ss))"

text \<open>
  \<open>compileStructSpec(t, depth, index, ss)\<close> for the struct type \<open>t\<close> named \<open>tname\<close>, from
  its field number \<open>i\<close> on; \<open>flds\<close> are the fields \<open>i, i+1, ...\<close> of \<open>t\<close>.
\<close>

function compileStructSpec ::
  "string \<Rightarrow> StructField list \<Rightarrow> nat \<Rightarrow> (string \<rightharpoonup> nat) \<Rightarrow> nat list \<Rightarrow> structSpec
     \<Rightarrow> string + ((string \<rightharpoonup> nat) \<times> structSpec)" where
  "compileStructSpec tname [] i depth index ss = Inr (depth, ss)"
| "compileStructSpec tname (f # flds) i depth index ss =
     (if fPkgPath f \<noteq> [] then compileStructSpec tname flds (i + 1) depth index ss
      else if fAnonymous f then
        (case fType f of
           TStruct tname' flds' \<Rightarrow>
             (case compileStructSpec tname' flds' 0 depth (index @ [i]) ss of
                Inl msg \<Rightarrow> Inl msg
              | Inr (depth', ss') \<Rightarrow> compileStructSpec tname flds (i + 1) depth' index ss')
         | _ \<Rightarrow> compileStructSpec tname flds (i + 1) depth index ss)
      else
        (case compileField tname f i depth index ss of
           Inl msg \<Rightarrow> Inl msg
         | Inr (depth', ss') \<Rightarrow> compileStructSpec tname flds (i + 1) depth' index ss'))"
  by pat_completeness auto
termination
proof (relation "measure (\<lambda>(tname, flds, i, depth, index, ss). size_list size flds)")
  show "wf (measure (\<lambda>(tname, flds, i, depth, index, ss). size_list size flds))" by simp
next
  fix f :: StructField and flds :: "StructField list" and tname' flds'
  assume "fType f = TStruct tname' flds'"
  then have "size_list size flds' < size f" by (cases f) simp
  then show "((tname', flds', 0, depth, index @ [i], ss), (tname, f # flds, i, depth, index, ss))
      \<in> measure (\<lambda>(tname, flds, i, depth, index, ss). size_list size flds)"
    for tname i depth index ss
    by simp
qed simp_all

text \<open>
  \<open>structSpecForType\<close>. \<open>structSpecCache\<close> only memoizes the result per type (a panic
  leaves the cache as it was), so the compiled mapping is a function of the type.
\<close>

definition structSpecForType :: "gotype \<Rightarrow> string + structSpec" where
  "structSpecForType t =
     (case t of
        TStruct tname flds \<Rightarrow>
          (case compileStructSpec tname flds 0 Map.empty []
                  \<lparr>ss_m = Map.empty, ss_l = [], ss_fields = []\<rparr> of
             Inl msg \<Rightarrow> Inl msg
           | Inr (depth, ss) \<Rightarrow>
               (let named = filter (\<lambda>fs. fs_name fs \<noteq> ''_id'') (ss_l ss);
                    hasId = (\<exists>fs \<in> set (ss_l ss). fs_name fs = ''_id'')
                in Inr (ss\<lparr>ss_fields :=
                     map (\<lambda>fs. (fs_name fs, VScalar (VInt 1))) named
                       @ (if hasId then [] else [(''_id'', VScalar (VInt 0))])\<rparr>)))
      | _ \<Rightarrow> Inl ''reflect: NumField of non-struct type'')"

section \<open>The encoder (bson\_encode.go)\<close>

datatype error =
    EncodeTypeError gotype
  | errorString string

text \<open>
  What a panic carries: \<open>aborted err\<close> is the encoder's own wrapper (\<open>abort\<close>), which
  \<open>handleAbort\<close> turns into the returned error; \<open>panicked msg\<close> is any other panic value,
  which \<open>handleAbort\<close> throws again.
\<close>

datatype panic =
    aborted error
  | panicked string

type_synonym buffer = "byte list"

definition abort :: "error \<Rightarrow> panic + buffer" where
  "abort err = Inl (aborted err)"

subsection \<open>The byte buffer\<close>

text \<open>
  Modelled from the spec: the type \<open>buffer\<close> and the variable \<open>wire\<close> are declared in a
  file that is not among the sources. The spec describes "one growable buffer" with a
  4-byte length placeholder that is backfilled, and a little-endian binary format; the
  methods append to the buffer what their names say (\<open>WriteCString\<close>: the bytes of the
  string and a terminating zero; \<open>Next n\<close>: \<open>n\<close> fresh bytes, here zero until overwritten).
\<close>

definition Write :: "byte list \<Rightarrow> buffer \<Rightarrow> buffer" where
  "Write p e = e @ p"

definition WriteByte :: "byte \<Rightarrow> buffer \<Rightarrow> buffer" where
  "WriteByte b e = e @ [b]"

definition stringBytes :: "string \<Rightarrow> byte list" where
  "stringBytes s = map of_char s"

definition WriteCString :: "string \<Rightarrow> buffer \<Rightarrow> buffer" where
  "WriteCString s e = e @ stringBytes s @ [0]"

definition putUint32 :: "32 word \<Rightarrow> byte list" where
  "putUint32 w = [ucast w, ucast (drop_bit 8 w), ucast (drop_bit 16 w), ucast (drop_bit 24 w)]"

definition putUint64 :: "64 word \<Rightarrow> byte list" where
  "putUint64 w =
     [ucast w, ucast (drop_bit 8 w), ucast (drop_bit 16 w), ucast (drop_bit 24 w),
      ucast (drop_bit 32 w), ucast (drop_bit 40 w), ucast (drop_bit 48 w),
      ucast (drop_bit 56 w)]"

definition WriteUint32 :: "32 word \<Rightarrow> buffer \<Rightarrow> buffer" where
  "WriteUint32 w e = e @ putUint32 w"

definition WriteUint64 :: "64 word \<Rightarrow> buffer \<Rightarrow> buffer" where
  "WriteUint64 w e = e @ putUint64 w"

definition Next :: "nat \<Rightarrow> buffer \<Rightarrow> buffer" where
  "Next n e = e @ replicate n 0"

subsection \<open>Kinds of element\<close>

definition kindFloat :: int where "kindFloat = 0x1"
definition kindString :: int where "kindString = 0x2"
definition kindDocument :: int where "kindDocument = 0x3"
definition kindArray :: int where "kindArray = 0x4"
definition kindBinary :: int where "kindBinary = 0x5"
definition kindObjectId :: int where "kindObjectId = 0x7"
definition kindBool :: int where "kindBool = 0x8"
definition kindDateTime :: int where "kindDateTime = 0x9"
definition kindNull :: int where "kindNull = 0xA"
definition kindRegexp :: int where "kindRegexp = 0xB"
definition kindCode :: int where "kindCode = 0xD"
definition kindSymbol :: int where "kindSymbol = 0xE"
definition kindCodeWithScope :: int where "kindCodeWithScope = 0xF"
definition kindInt32 :: int where "kindInt32 = 0x10"
definition kindTimestamp :: int where "kindTimestamp = 0x11"
definition kindInt64 :: int where "kindInt64 = 0x12"
definition kindMinValue :: int where "kindMinValue = 0xff"
definition kindMaxValue :: int where "kindMaxValue = 0x7f"

lemmas kind_defs =
  kindFloat_def kindString_def kindDocument_def kindArray_def kindBinary_def
  kindObjectId_def kindBool_def kindDateTime_def kindNull_def kindRegexp_def kindCode_def
  kindSymbol_def kindCodeWithScope_def kindInt32_def kindTimestamp_def kindInt64_def
  kindMinValue_def kindMaxValue_def

subsection \<open>Document framing\<close>

text \<open>\<open>beginDoc\<close> returns the offset and the buffer grown by the placeholder.\<close>

definition beginDoc :: "buffer \<Rightarrow> nat \<times> buffer" where
  "beginDoc e = (length e, Next 4 e)"

definition endDoc :: "nat \<Rightarrow> buffer \<Rightarrow> buffer" where
  "endDoc offset e =
     take offset e @ putUint32 (of_nat (length e - offset)) @ drop (offset + 4) e"

definition writeKindName :: "int \<Rightarrow> string \<Rightarrow> buffer \<Rightarrow> buffer" where
  "writeKindName kind name e = WriteCString name (WriteByte (of_int kind) e)"

subsection \<open>Encoders of values without elements of their own\<close>

text \<open>
  Each encoder takes what the source reads from the \<open>reflect.Value\<close> (\<open>v.Bool()\<close>,
  \<open>v.Int()\<close>, \<open>v.Uint()\<close>, ...) and the buffer, and returns the buffer or a panic.
\<close>

definition encodeBool :: "string \<Rightarrow> fieldSpec \<Rightarrow> bool \<Rightarrow> buffer \<Rightarrow> panic + buffer" where
  "encodeBool name fs b e =
     (if b = False \<and> fs_omitEmpty fs then Inr e
      else Inr (WriteByte (if b then 1 else 0) (writeKindName kindBool name e)))"

definition MinInt32 :: int where "MinInt32 = - 2147483648"
definition MaxInt32 :: int where "MaxInt32 = 2147483647"

definition encodeInt :: "string \<Rightarrow> fieldSpec \<Rightarrow> 64 word \<Rightarrow> buffer \<Rightarrow> panic + buffer" where
  "encodeInt name fs i e =
     (if i = 0 \<and> fs_omitEmpty fs then Inr e
      else if sint i \<ge> MinInt32 \<and> sint i \<le> MaxInt32
        then Inr (WriteUint32 (ucast i) (writeKindName kindInt32 name e))
        else Inr (WriteUint64 i (writeKindName kindInt64 name e)))"

definition encodeUint16 :: "string \<Rightarrow> fieldSpec \<Rightarrow> 64 word \<Rightarrow> buffer \<Rightarrow> panic + buffer" where
  "encodeUint16 name fs u e =
     (if u = 0 \<and> fs_omitEmpty fs then Inr e
      else Inr (WriteUint32 (ucast u) (writeKindName kindInt32 name e)))"

definition encodeUint :: "string \<Rightarrow> fieldSpec \<Rightarrow> 64 word \<Rightarrow> buffer \<Rightarrow> panic + buffer" where
  "encodeUint name fs u e =
     (if u = 0 \<and> fs_omitEmpty fs then Inr e
      else if sint u < 0 then abort (errorString ''bson: uint value does not fit in int64'')
      else if uint u \<le> MaxInt32
        then Inr (WriteUint32 (ucast u) (writeKindName kindInt32 name e))
        else Inr (WriteUint64 u (writeKindName kindInt64 name e)))"

definition encodeInt32 :: "string \<Rightarrow> fieldSpec \<Rightarrow> 64 word \<Rightarrow> buffer \<Rightarrow> panic + buffer" where
  "encodeInt32 name fs i e =
     (if i = 0 \<and> fs_omitEmpty fs then Inr e
      else Inr (WriteUint32 (ucast i) (writeKindName kindInt32 name e)))"

definition encodeInt64 :: "int \<Rightarrow> string \<Rightarrow> fieldSpec \<Rightarrow> 64 word \<Rightarrow> buffer \<Rightarrow> panic + buffer" where
  "encodeInt64 kind name fs i e =
     (if i = 0 \<and> fs_omitEmpty fs then Inr e
      else Inr (WriteUint64 i (writeKindName kind name e)))"

definition encodeUint64 :: "string \<Rightarrow> fieldSpec \<Rightarrow> 64 word \<Rightarrow> buffer \<Rightarrow> panic + buffer" where
  "encodeUint64 name fs u e =
     (if u = 0 \<and> fs_omitEmpty fs then Inr e
      else if sint u < 0 then abort (errorString ''bson: uint64 value does not fit in int64'')
      else Inr (WriteUint64 u (writeKindName kindInt64 name e)))"

text \<open>
  \<open>f == 0\<close> on the bits of a float64: true of \<open>+0\<close> and \<open>-0\<close>, the two bit patterns with
  only the sign bit free.
\<close>

definition floatIsZero :: "64 word \<Rightarrow> bool" where
  "floatIsZero bits = (bits AND 0x7FFFFFFFFFFFFFFF = 0)"

definition encodeFloat :: "string \<Rightarrow> fieldSpec \<Rightarrow> 64 word \<Rightarrow> buffer \<Rightarrow> panic + buffer" where
  "encodeFloat name fs f e =
     (if floatIsZero f \<and> fs_omitEmpty fs then Inr e
      else Inr (WriteUint64 f (writeKindName kindFloat name e)))"

definition encodeString :: "int \<Rightarrow> string \<Rightarrow> fieldSpec \<Rightarrow> string \<Rightarrow> buffer \<Rightarrow> panic + buffer" where
  "encodeString kind name fs s e =
     (if s = [] \<and> fs_omitEmpty fs then Inr e
      else Inr (WriteCString s (WriteUint32 (of_nat (length s + 1)) (writeKindName kind name e))))"

definition encodeRegexp :: "string \<Rightarrow> fieldSpec \<Rightarrow> string \<Rightarrow> string \<Rightarrow> buffer \<Rightarrow> panic + buffer" where
  "encodeRegexp name fs Pattern Options e =
     (if Pattern = [] \<and> fs_omitEmpty fs then Inr e
      else Inr (WriteCString Options (WriteCString Pattern (writeKindName kindRegexp name e))))"

text \<open>\<open>copy(e.Next(12), oid)\<close> fills the twelve fresh bytes with the identifier.\<close>

definition encodeObjectId :: "string \<Rightarrow> fieldSpec \<Rightarrow> string \<Rightarrow> buffer \<Rightarrow> panic + buffer" where
  "encodeObjectId name fs oid e =
     (if oid = [] then Inr e
      else if length oid \<noteq> 12 then abort (errorString ''bson: object id length != 12'')
      else Inr (Write (stringBytes oid) (writeKindName kindObjectId name e)))"

definition encodeBSONData :: "string \<Rightarrow> fieldSpec \<Rightarrow> int \<Rightarrow> byte list \<Rightarrow> buffer \<Rightarrow> panic + buffer" where
  "encodeBSONData name fs Kind Data e =
     (if Kind = 0 then Inr e
      else Inr (Write Data (writeKindName Kind name e)))"

definition encodeMinMax :: "string \<Rightarrow> fieldSpec \<Rightarrow> 64 word \<Rightarrow> buffer \<Rightarrow> panic + buffer" where
  "encodeMinMax name fs i e =
     (if i = 0 \<and> fs_omitEmpty fs then Inr e
      else if i = 1 then Inr (writeKindName kindMaxValue name e)
      else if i = - 1 then Inr (writeKindName kindMinValue name e)
      else abort (errorString ''bson: unknown MinMax value''))"

text \<open>
  \<open>t.IsZero()\<close>: the zero \<open>time.Time\<close> is January 1 of year 1, 00:00:00 UTC, which is
  62135596800 seconds before the Unix epoch. \<open>msFromTime\<close> computes in int64.
\<close>

definition IsZero :: "Time \<Rightarrow> bool" where
  "IsZero t = (Unix t = - 62135596800 \<and> Nanosecond t = 0)"

definition msFromTime :: "Time \<Rightarrow> 64 word" where
  "msFromTime t = Unix t * 1000 + of_nat (Nanosecond t div 1000000)"

definition encodeTime :: "string \<Rightarrow> fieldSpec \<Rightarrow> Time \<Rightarrow> buffer \<Rightarrow> panic + buffer" where
  "encodeTime name fs t e =
     (if IsZero t \<and> fs_omitEmpty fs then Inr e
      else Inr (WriteUint64 (msFromTime t) (writeKindName kindDateTime name e)))"

text \<open>\<open>v.Bytes()\<close> of a slice of bytes.\<close>

definition Bytes :: "val list \<Rightarrow> byte list" where
  "Bytes vs = map (\<lambda>v. case v of VScalar (VUint8 b) \<Rightarrow> b | _ \<Rightarrow> 0) vs"

definition encodeByteSlice :: "string \<Rightarrow> fieldSpec \<Rightarrow> val list option \<Rightarrow> buffer \<Rightarrow> panic + buffer" where
  "encodeByteSlice name fs b e =
     (case b of
        None \<Rightarrow> Inr e
      | Some vs \<Rightarrow>
          Inr (Write (Bytes vs)
                (WriteByte 0 (WriteUint32 (of_nat (length vs)) (writeKindName kindBinary name e)))))"

text \<open>\<open>strconv.Itoa\<close> of a non-negative number; \<open>itoas\<close> holds the first eleven.\<close>

fun Itoa :: "nat \<Rightarrow> string" where
  "Itoa n = (if n < 10 then [char_of (48 + n)] else Itoa (n div 10) @ [char_of (48 + n mod 10)])"

definition itoas :: "string list" where
  "itoas =
     [[CHR ''0''], [CHR ''1''], [CHR ''2''], [CHR ''3''], [CHR ''4''], [CHR ''5''],
      [CHR ''6''], [CHR ''7''], [CHR ''8''], [CHR ''9''], [CHR ''1'', CHR ''0'']]"

subsection \<open>Reading struct fields and interfaces\<close>

text \<open>
  \<open>v.Field(i)\<close> and \<open>v.FieldByIndex(index)\<close>; \<open>None\<close> stands for the panic of
  \<open>reflect\<close> on a value that is not a struct or has no such field.
\<close>

definition Field :: "val \<Rightarrow> nat \<Rightarrow> val option" where
  "Field v i =
     (case v of
        VStruct n flds vs \<Rightarrow> (if i < length vs then Some (vs ! i) else None)
      | _ \<Rightarrow> None)"

fun FieldByIndex :: "val \<Rightarrow> nat list \<Rightarrow> val option" where
  "FieldByIndex v [] = Some v"
| "FieldByIndex v (i # index) =
     (case Field v i of
        None \<Rightarrow> None
      | Some x \<Rightarrow> FieldByIndex x index)"

text \<open>
  \<open>reflect.ValueOf(x)\<close> for an \<open>x\<close> of type \<open>interface{}\<close> read from a map: the value
  inside the interface, the zero Value for nil.
\<close>

definition ValueOf :: "val \<Rightarrow> val" where
  "ValueOf v =
     (case v of
        VInterface None \<Rightarrow> VInvalid
      | VInterface (Some x) \<Rightarrow> x
      | _ \<Rightarrow> v)"

text \<open>
  \<open>v.Interface().(BSONData)\<close>, \<open>.(Regexp)\<close> and \<open>.(CodeWithScope)\<close> on the fields of a
  struct value of that type; \<open>None\<close> if the fields are not of the type's shape.
\<close>

definition asBSONData :: "val list \<Rightarrow> (int \<times> byte list) option" where
  "asBSONData vs =
     (if length vs = 2
      then (case vs ! 0 of
              VScalar (VInt k) \<Rightarrow>
                (case vs ! 1 of
                   VSlice t d \<Rightarrow> Some (sint k, (case d of None \<Rightarrow> [] | Some bs \<Rightarrow> Bytes bs))
                 | _ \<Rightarrow> None)
            | _ \<Rightarrow> None)
      else None)"

definition asRegexp :: "val list \<Rightarrow> (string \<times> string) option" where
  "asRegexp vs =
     (if length vs = 2
      then (case vs ! 0 of
              VScalar (VString p) \<Rightarrow> (case vs ! 1 of VScalar (VString q) \<Rightarrow> Some (p, q) | _ \<Rightarrow> None)
            | _ \<Rightarrow> None)
      else None)"

definition asCodeWithScope :: "val list \<Rightarrow> (string \<times> (string \<times> val) list option) option" where
  "asCodeWithScope vs =
     (if length vs = 2
      then (case vs ! 0 of
              VScalar (VString code) \<Rightarrow> (case vs ! 1 of VMap kt et scope \<Rightarrow> Some (code, scope) | _ \<Rightarrow> None)
            | _ \<Rightarrow> None)
      else None)"

lemma size_nth_less: "i < length vs \<Longrightarrow> size (vs ! i) < Suc (size_list size vs)"
  for vs :: "val list"
proof (induction vs arbitrary: i)
  case Nil
  then show ?case by simp
next
  case (Cons a vs)
  show ?case
  proof (cases i)
    case 0
    then show ?thesis by simp
  next
    case (Suc j)
    with Cons.prems have "j < length vs" by simp
    from Cons.IH [OF this] show ?thesis using Suc by simp
  qed
qed

lemma Field_size: "Field v i = Some x \<Longrightarrow> size x < size v"
  using size_nth_less
  by (auto simp: Field_def split: val.splits if_splits)

lemma FieldByIndex_size: "FieldByIndex v index = Some x \<Longrightarrow> index \<noteq> [] \<Longrightarrow> size x < size v"
proof (induction index arbitrary: v)
  case Nil
  then show ?case by simp
next
  case (Cons i index)
  from Cons.prems obtain y where y: "Field v i = Some y" and x: "FieldByIndex y index = Some x"
    by (auto split: option.splits)
  show ?case
  proof (cases index)
    case Nil
    with x y show ?thesis by (simp add: Field_size)
  next
    case (Cons j js)
    with Cons.IH [OF x] Field_size [OF y] show ?thesis by simp
  qed
qed

lemma ValueOf_size: "size (ValueOf v) \<le> size v"
  by (auto simp: ValueOf_def split: val.splits option.splits)

lemma ValueOf_size_less: "size (ValueOf v) < Suc (Suc (size v + n))"
  using ValueOf_size [of v] by simp

lemma asCodeWithScope_size:
  assumes "asCodeWithScope vs = Some (code, scope)"
  shows "size_option (size_list (size_prod (\<lambda>x. 0) size)) scope < size_list size vs"
proof -
  from assms have len: "length vs = 2"
    by (auto simp: asCodeWithScope_def split: if_splits)
  then obtain a b where vs: "vs = [a, b]"
    by (cases vs; cases "tl vs") auto
  from assms vs obtain kt et where "b = VMap kt et scope"
    by (auto simp: asCodeWithScope_def split: val.splits scalar.splits)
  with vs show ?thesis by simp
qed

lemma map_of_size:
  "map_of kvs k = Some v \<Longrightarrow> size v < size_list (size_prod (\<lambda>x. 0) size) kvs"
  for kvs :: "(string \<times> val) list"
  by (induction kvs) (auto split: if_splits)

subsection \<open>The traversal\<close>

text \<open>
  \<open>encodeValue\<close> looks the encoder up in \<open>typeEncoder\<close> by the type and then in
  \<open>kindEncoder\<close> by the kind; here the constructor of the value decides, one equation
  per entry of the two tables (\<open>encodeScalar\<close> holds the entries of the values that
  have no elements of their own). The encoders \<open>encodeD\<close>, \<open>encodeMap\<close>, \<open>encodeSlice\<close>,
  \<open>encodeStruct\<close> and \<open>encodeInterfaceOrPtr\<close> are written out in the equation of their
  entry. The functions named \<open>_fields\<close>, \<open>_keys\<close>, \<open>_items\<close> and \<open>_elems\<close> are the \<open>for\<close>
  loops of the function they are named after. At top level \<open>writeMap\<close> looks the key
  \<open>_id\<close> up with \<open>v.MapIndex(idKey)\<close>, where \<open>idKey\<close> is a value of type \<open>string\<close>:
  \<open>reflect\<close> panics there unless the key type of the map is \<open>string\<close> itself, a value of
  type \<open>string\<close> not being assignable to a defined type. \<open>compileStructSpec\<close> gives every field
  an index of at least one position; a field with an empty index would make
  \<open>writeStruct\<close> encode the struct inside itself without end, which stops the model.
\<close>

fun encodeScalar :: "string \<Rightarrow> fieldSpec \<Rightarrow> scalar \<Rightarrow> buffer \<Rightarrow> panic + buffer" where
  "encodeScalar name fs (VBool b) e = encodeBool name fs b e"
| "encodeScalar name fs (VInt i) e = encodeInt name fs i e"
| "encodeScalar name fs (VInt8 i) e = encodeInt32 name fs (scast i) e"
| "encodeScalar name fs (VInt16 i) e = encodeInt32 name fs (scast i) e"
| "encodeScalar name fs (VInt32 i) e = encodeInt32 name fs (scast i) e"
| "encodeScalar name fs (VInt64 i) e = encodeInt64 kindInt64 name fs i e"
| "encodeScalar name fs (VUint u) e = encodeUint name fs u e"
| "encodeScalar name fs (VUint8 u) e = encodeUint16 name fs (ucast u) e"
| "encodeScalar name fs (VUint16 u) e = encodeUint16 name fs (ucast u) e"
| "encodeScalar name fs (VUint32 u) e = encodeUint name fs (ucast u) e"
| "encodeScalar name fs (VUint64 u) e = encodeUint64 name fs u e"
| "encodeScalar name fs (VFloat32 f) e = encodeFloat name fs f e"
| "encodeScalar name fs (VFloat64 f) e = encodeFloat name fs f e"
| "encodeScalar name fs (VString s) e = encodeString kindString name fs s e"
| "encodeScalar name fs (VCode s) e = encodeString kindCode name fs s e"
| "encodeScalar name fs (VSymbol s) e = encodeString kindSymbol name fs s e"
| "encodeScalar name fs (VObjectId oid) e = encodeObjectId name fs oid e"
| "encodeScalar name fs (VMinMax i) e = encodeMinMax name fs i e"
| "encodeScalar name fs (VTimestamp i) e = encodeInt64 kindTimestamp name fs i e"
| "encodeScalar name fs (VTime t) e = encodeTime name fs t e"

function encodeValue :: "string \<Rightarrow> fieldSpec \<Rightarrow> val \<Rightarrow> buffer \<Rightarrow> panic + buffer"
  and writeStruct :: "val \<Rightarrow> buffer \<Rightarrow> panic + buffer"
  and writeStruct_fields :: "fieldSpec list \<Rightarrow> val \<Rightarrow> buffer \<Rightarrow> panic + buffer"
  and writeMap :: "gotype \<Rightarrow> gotype \<Rightarrow> (string \<times> val) list option \<Rightarrow> bool \<Rightarrow> buffer \<Rightarrow> panic + buffer"
  and writeMap_keys :: "bool \<Rightarrow> (string \<times> val) list \<Rightarrow> buffer \<Rightarrow> panic + buffer"
  and writeD :: "(string \<times> val) list \<Rightarrow> buffer \<Rightarrow> panic + buffer"
  and writeD_items :: "(string \<times> val) list \<Rightarrow> buffer \<Rightarrow> panic + buffer"
  and encodeCodeWithScope ::
    "string \<Rightarrow> fieldSpec \<Rightarrow> string \<Rightarrow> (string \<times> val) list option \<Rightarrow> buffer \<Rightarrow> panic + buffer"
  and encodeCodeWithScope_items :: "(string \<times> val) list \<Rightarrow> buffer \<Rightarrow> panic + buffer"
  and encodeArray :: "string \<Rightarrow> fieldSpec \<Rightarrow> val list \<Rightarrow> buffer \<Rightarrow> panic + buffer"
  and encodeArray_elems :: "nat \<Rightarrow> nat \<Rightarrow> val list \<Rightarrow> buffer \<Rightarrow> panic + buffer"
where
  "encodeValue name fs VInvalid e = Inr e"
| "encodeValue name fs (VScalar s) e = encodeScalar name fs s e"
| "encodeValue name fs (VD d) e =
     (case d of
        None \<Rightarrow> Inr e
      | Some items \<Rightarrow> writeD items (writeKindName kindDocument name e))"
| "encodeValue name fs (VMap kt et mp) e =
     (case mp of
        None \<Rightarrow> Inr e
      | Some kvs \<Rightarrow> writeMap kt et mp False (writeKindName kindDocument name e))"
| "encodeValue name fs (VSlice t s) e =
     (case s of
        None \<Rightarrow> Inr e
      | Some vs \<Rightarrow>
          if kindOf t = KUint8 then encodeByteSlice name fs s e
          else encodeArray name fs vs e)"
| "encodeValue name fs (VArray t vs) e = encodeArray name fs vs e"
| "encodeValue name fs (VPtr t p) e =
     (case p of
        None \<Rightarrow> Inr e
      | Some x \<Rightarrow> encodeValue name defaultFieldSpec x e)"
| "encodeValue name fs (VInterface p) e =
     (case p of
        None \<Rightarrow> Inr e
      | Some x \<Rightarrow> encodeValue name defaultFieldSpec x e)"
| "encodeValue name fs (VStruct n flds vs) e =
     (if TStruct n flds = typeBSONData then
        (case asBSONData vs of
           None \<Rightarrow> Inl (panicked ''interface conversion'')
         | Some (k, d) \<Rightarrow> encodeBSONData name fs k d e)
      else if TStruct n flds = typeCodeWithScope then
        (case asCodeWithScope vs of
           None \<Rightarrow> Inl (panicked ''interface conversion'')
         | Some (code, scope) \<Rightarrow> encodeCodeWithScope name fs code scope e)
      else if TStruct n flds = typeRegexp then
        (case asRegexp vs of
           None \<Rightarrow> Inl (panicked ''interface conversion'')
         | Some (p, opts) \<Rightarrow> encodeRegexp name fs p opts e)
      else writeStruct (VStruct n flds vs) (writeKindName kindDocument name e))"
| "encodeValue name fs (VOther t) e = abort (EncodeTypeError t)"
| "writeStruct v e =
     (let (offset, e1) = beginDoc e
      in case typeOf v of
           None \<Rightarrow> Inl (panicked ''reflect: call of reflect.Value.Type on zero Value'')
         | Some t \<Rightarrow>
             (case structSpecForType t of
                Inl msg \<Rightarrow> Inl (panicked msg)
              | Inr ss \<Rightarrow>
                  (case writeStruct_fields (ss_l ss) v e1 of
                     Inl p \<Rightarrow> Inl p
                   | Inr e2 \<Rightarrow> Inr (endDoc offset (WriteByte 0 e2)))))"
| "writeStruct_fields [] v e = Inr e"
| "writeStruct_fields (fs # rest) v e =
     (if fs_index fs = [] then Inl (panicked ''stack overflow'')
      else
        (case FieldByIndex v (fs_index fs) of
           None \<Rightarrow> Inl (panicked ''reflect: Field index out of range'')
         | Some x \<Rightarrow>
             (case encodeValue (fs_name fs) fs x e of
                Inl p \<Rightarrow> Inl p
              | Inr e' \<Rightarrow> writeStruct_fields rest v e')))"
| "writeMap kt et mp topLevel e =
     (case mp of
        None \<Rightarrow> Inr e
      | Some kvs \<Rightarrow>
          if kindOf kt \<noteq> KString then abort (EncodeTypeError (TMap kt et))
          else
            (let (offset, e1) = beginDoc e
             in case (if topLevel
                      then (if kt \<noteq> TString
                            then Inl (panicked
                              ''reflect.Value.MapIndex: value of type string is not assignable to the key type'')
                            else (case map_of kvs ''_id'' of
                                    None \<Rightarrow> Inr (False, e1)
                                  | Some idValue \<Rightarrow>
                                      (case encodeValue ''_id'' defaultFieldSpec idValue e1 of
                                         Inl p \<Rightarrow> Inl p
                                       | Inr e2 \<Rightarrow> Inr (True, e2))))
                      else Inr (False, e1)) of
                  Inl p \<Rightarrow> Inl p
                | Inr (skipId, e2) \<Rightarrow>
                    (case writeMap_keys skipId kvs e2 of
                       Inl p \<Rightarrow> Inl p
                     | Inr e3 \<Rightarrow> Inr (endDoc offset (WriteByte 0 e3)))))"
| "writeMap_keys skipId [] e = Inr e"
| "writeMap_keys skipId ((sk, x) # rest) e =
     (if \<not> skipId \<or> sk \<noteq> ''_id''
      then (case encodeValue sk defaultFieldSpec x e of
              Inl p \<Rightarrow> Inl p
            | Inr e' \<Rightarrow> writeMap_keys skipId rest e')
      else writeMap_keys skipId rest e)"
| "writeD d e =
     (let (offset, e1) = beginDoc e
      in case writeD_items d e1 of
           Inl p \<Rightarrow> Inl p
         | Inr e2 \<Rightarrow> Inr (endDoc offset (WriteByte 0 e2)))"
| "writeD_items [] e = Inr e"
| "writeD_items ((k, x) # rest) e =
     (case encodeValue k defaultFieldSpec x e of
        Inl p \<Rightarrow> Inl p
      | Inr e' \<Rightarrow> writeD_items rest e')"
| "encodeCodeWithScope name fs code scope e =
     (if code = [] \<and> scope = None \<and> fs_omitEmpty fs then Inr e
      else
        (let e1 = writeKindName kindCodeWithScope name e;
             (offset, e2) = beginDoc e1;
             e3 = WriteCString code (WriteUint32 (of_nat (length code + 1)) e2);
             (scopeOffset, e4) = beginDoc e3
         in case encodeCodeWithScope_items (case scope of None \<Rightarrow> [] | Some kvs \<Rightarrow> kvs) e4 of
              Inl p \<Rightarrow> Inl p
            | Inr e5 \<Rightarrow> Inr (endDoc offset (endDoc scopeOffset (WriteByte 0 e5)))))"
| "encodeCodeWithScope_items [] e = Inr e"
| "encodeCodeWithScope_items ((k, x) # rest) e =
     (case encodeValue k defaultFieldSpec (ValueOf x) e of
        Inl p \<Rightarrow> Inl p
      | Inr e' \<Rightarrow> encodeCodeWithScope_items rest e')"
| "encodeArray name fs vs e =
     (let e1 = writeKindName kindArray name e;
          (offset, e2) = beginDoc e1
      in case encodeArray_elems (length vs) 0 vs e2 of
           Inl p \<Rightarrow> Inl p
         | Inr e3 \<Rightarrow> Inr (endDoc offset (WriteByte 0 e3)))"
| "encodeArray_elems n i [] e = Inr e"
| "encodeArray_elems n i (x # rest) e =
     (case encodeValue (if n < length itoas then itoas ! i else Itoa i) defaultFieldSpec x e of
        Inl p \<Rightarrow> Inl p
      | Inr e' \<Rightarrow> encodeArray_elems n (i + 1) rest e')"
  by pat_completeness auto
termination
  apply (relation "measures [
    (\<lambda>x. case x of
        Inl (Inl (Inl (name, fs, v, e))) \<Rightarrow> size v
      | Inl (Inl (Inr (v, e))) \<Rightarrow> size v
      | Inl (Inr (Inl (l, v, e))) \<Rightarrow> size v
      | Inl (Inr (Inr (Inl (kt, et, mp, topLevel, e)))) \<Rightarrow>
          size_option (size_list (size_prod (\<lambda>x. 0) size)) mp
      | Inl (Inr (Inr (Inr (skipId, kvs, e)))) \<Rightarrow> size_list (size_prod (\<lambda>x. 0) size) kvs
      | Inr (Inl (Inl (d, e))) \<Rightarrow> Suc (size_list (size_prod (\<lambda>x. 0) size) d)
      | Inr (Inl (Inr (Inl (d, e)))) \<Rightarrow> size_list (size_prod (\<lambda>x. 0) size) d
      | Inr (Inl (Inr (Inr (name, fs, code, scope, e)))) \<Rightarrow>
          Suc (size_option (size_list (size_prod (\<lambda>x. 0) size)) scope)
      | Inr (Inr (Inl (kvs, e))) \<Rightarrow> size_list (size_prod (\<lambda>x. 0) size) kvs
      | Inr (Inr (Inr (Inl (name, fs, vs, e)))) \<Rightarrow> Suc (size_list size vs)
      | Inr (Inr (Inr (Inr (n, i, vs, e)))) \<Rightarrow> size_list size vs),
    (\<lambda>x. case x of
        Inl (Inl (Inl (name, fs, v, e))) \<Rightarrow> 2
      | Inl (Inl (Inr (v, e))) \<Rightarrow> 1
      | _ \<Rightarrow> 0),
    (\<lambda>x. case x of
        Inl (Inr (Inl (l, v, e))) \<Rightarrow> length l
      | _ \<Rightarrow> 0)]")
  apply (auto simp: FieldByIndex_size ValueOf_size_less dest: map_of_size asCodeWithScope_size
      split: option.splits)
  done

subsection \<open>Encode\<close>

text \<open>
  What a call of \<open>Encode\<close> gives its caller: the two results \<open>(result, err)\<close> (a nil slice
  and a nil error are \<open>None\<close>), or a panic that leaves \<open>Encode\<close>.
\<close>

datatype EncodeResult =
    Returned "byte list option" "error option"
  | Panic string

text \<open>
  \<open>defer handleAbort(&err)\<close>: \<open>r\<close> is how the body of \<open>Encode\<close> ended. On a normal return
  the results are those of the \<open>return\<close> statement. On a panic no \<open>return\<close> has run, so
  \<open>result\<close> still has its zero value nil; \<open>err\<close> is set from an \<open>aborted\<close> panic, and any other
  panic is raised again.
\<close>

definition handleAbort :: "panic + (byte list option \<times> error option) \<Rightarrow> EncodeResult" where
  "handleAbort r =
     (case r of
        Inr (result, err) \<Rightarrow> Returned result err
      | Inl (aborted err) \<Rightarrow> Returned None (Some err)
      | Inl (panicked msg) \<Rightarrow> Panic msg)"

text \<open>\<open>v.Elem()\<close> of an interface or a pointer: the zero Value when it is nil.\<close>

definition Elem :: "val \<Rightarrow> val" where
  "Elem v =
     (case v of
        VPtr t p \<Rightarrow> (case p of None \<Rightarrow> VInvalid | Some x \<Rightarrow> x)
      | VInterface p \<Rightarrow> (case p of None \<Rightarrow> VInvalid | Some x \<Rightarrow> x)
      | _ \<Rightarrow> v)"

text \<open>
  \<open>return e.buffer, nil\<close>: the buffer is the slice \<open>buf\<close> with the encoding appended; a nil
  \<open>buf\<close> to which nothing was appended is still nil.
\<close>

definition returnBuffer :: "byte list option \<Rightarrow> buffer \<Rightarrow> byte list option \<times> error option" where
  "returnBuffer buf e = (if buf = None \<and> e = [] then None else Some e, None)"

text \<open>\<open>Encode(buf, doc)\<close>, where \<open>doc\<close> stands for \<open>reflect.ValueOf(doc)\<close>.\<close>

definition Encode :: "byte list option \<Rightarrow> val \<Rightarrow> EncodeResult" where
  "Encode buf doc =
     handleAbort
       (let v = (case doc of VInterface p \<Rightarrow> Elem doc | VPtr t p \<Rightarrow> Elem doc | _ \<Rightarrow> doc);
            e = (case buf of None \<Rightarrow> [] | Some b \<Rightarrow> b)
        in case typeOf v of
             None \<Rightarrow> Inl (panicked ''reflect: call of reflect.Value.Type on zero Value'')
           | Some t \<Rightarrow>
               if t = TD then
                 (case v of
                    VD d \<Rightarrow>
                      (case writeD (case d of None \<Rightarrow> [] | Some items \<Rightarrow> items) e of
                         Inl p \<Rightarrow> Inl p
                       | Inr e' \<Rightarrow> Inr (returnBuffer buf e'))
                  | _ \<Rightarrow> Inl (panicked ''interface conversion''))
               else if t = typeBSONData then
                 (case v of
                    VStruct n flds vs \<Rightarrow>
                      (case asBSONData vs of
                         None \<Rightarrow> Inl (panicked ''interface conversion'')
                       | Some (k, d) \<Rightarrow>
                           if k \<noteq> kindDocument then Inr (None, Some (EncodeTypeError t))
                           else Inr (returnBuffer buf (Write d e)))
                  | _ \<Rightarrow> Inl (panicked ''interface conversion''))
               else if kindOf t = KStruct then
                 (case writeStruct v e of
                    Inl p \<Rightarrow> Inl p
                  | Inr e' \<Rightarrow> Inr (returnBuffer buf e'))
               else if kindOf t = KMap then
                 (case v of
                    VMap kt et mp \<Rightarrow>
                      (case writeMap kt et mp True e of
                         Inl p \<Rightarrow> Inl p
                       | Inr e' \<Rightarrow> Inr (returnBuffer buf e'))
                  | _ \<Rightarrow> Inl (panicked ''interface conversion''))
               else Inr (None, Some (EncodeTypeError t)))"

section \<open>Observing one call of the encoder\<close>

text \<open>
  What a call that may append one element did, read off the buffer \<open>e\<close> before the call
  and the result \<open>r\<close> of the call: it left the buffer as long as it was, it appended an
  element whose first byte (the kind of the element) is \<open>k\<close>, it aborted with an error, or
  it panicked.
\<close>

datatype effect =
    Nothing
  | Element byte
  | Aborts error
  | Panics string

definition effectOf :: "buffer \<Rightarrow> panic + buffer \<Rightarrow> effect" where
  "effectOf e r =
     (case r of
        Inl (aborted err) \<Rightarrow> Aborts err
      | Inl (panicked msg) \<Rightarrow> Panics msg
      | Inr e' \<Rightarrow> (if length e' \<le> length e then Nothing else Element (e' ! length e)))"

text \<open>
  The zero value of a type, as Go's \<open>==\<close> sees it (for a float both zeros; for a time the
  zero instant), and the values an encoder rejects: an unsigned value above the int64
  range, an identifier that is neither empty nor 12 bytes long, a \<open>MinMax\<close> other than
  0, 1 and -1.
\<close>

fun isZeroValue :: "scalar \<Rightarrow> bool" where
  "isZeroValue (VBool b) = (\<not> b)"
| "isZeroValue (VInt i) = (i = 0)"
| "isZeroValue (VInt8 i) = (i = 0)"
| "isZeroValue (VInt16 i) = (i = 0)"
| "isZeroValue (VInt32 i) = (i = 0)"
| "isZeroValue (VInt64 i) = (i = 0)"
| "isZeroValue (VUint u) = (u = 0)"
| "isZeroValue (VUint8 u) = (u = 0)"
| "isZeroValue (VUint16 u) = (u = 0)"
| "isZeroValue (VUint32 u) = (u = 0)"
| "isZeroValue (VUint64 u) = (u = 0)"
| "isZeroValue (VFloat32 f) = floatIsZero f"
| "isZeroValue (VFloat64 f) = floatIsZero f"
| "isZeroValue (VString s) = (s = [])"
| "isZeroValue (VCode s) = (s = [])"
| "isZeroValue (VSymbol s) = (s = [])"
| "isZeroValue (VObjectId oid) = (oid = [])"
| "isZeroValue (VMinMax i) = (i = 0)"
| "isZeroValue (VTimestamp i) = (i = 0)"
| "isZeroValue (VTime t) = IsZero t"

definition rejected :: "scalar \<Rightarrow> bool" where
  "rejected s =
     (case s of
        VUint u \<Rightarrow> 9223372036854775808 \<le> uint u
      | VUint64 u \<Rightarrow> 9223372036854775808 \<le> uint u
      | VObjectId oid \<Rightarrow> oid \<noteq> [] \<and> length oid \<noteq> 12
      | VMinMax i \<Rightarrow> i \<noteq> 0 \<and> i \<noteq> 1 \<and> i \<noteq> - 1
      | _ \<Rightarrow> False)"

section \<open>Values the encoder cannot encode\<close>

text \<open>
  \<open>unencodable oe v\<close>: the traversal of \<open>v\<close>, encoded under a field entry whose omitempty
  flag is \<open>oe\<close>, meets a value of a type without an encoder, a map whose keys are not
  strings, or a value that an encoder rejects. The rules follow the traversal: the
  entries of a \<open>D\<close>, a map or a scope and the elements of a slice or array are encoded
  under \<open>defaultFieldSpec\<close>, as is what a pointer or an interface holds; the fields of a
  struct are those of its compiled mapping, each under its own entry.
\<close>

inductive unencodable :: "bool \<Rightarrow> val \<Rightarrow> bool" where
  unsupported:
    "kindOf t \<in> {KUintptr, KComplex64, KComplex128, KChan, KFunc, KUnsafePointer}
       \<Longrightarrow> unencodable oe (VOther t)"
| rejected: "rejected s \<Longrightarrow> unencodable oe (VScalar s)"
| MinMax_zero: "\<not> oe \<Longrightarrow> unencodable oe (VScalar (VMinMax 0))"
| D_item: "(k, x) \<in> set items \<Longrightarrow> unencodable False x \<Longrightarrow> unencodable oe (VD (Some items))"
| Map_key: "kindOf kt \<noteq> KString \<Longrightarrow> unencodable oe (VMap kt et (Some kvs))"
| Map_entry:
    "(k, x) \<in> set kvs \<Longrightarrow> distinct (map fst kvs) \<Longrightarrow> unencodable False x
       \<Longrightarrow> unencodable oe (VMap kt et (Some kvs))"
| Slice_elem:
    "kindOf t \<noteq> KUint8 \<Longrightarrow> x \<in> set vs \<Longrightarrow> unencodable False x
       \<Longrightarrow> unencodable oe (VSlice t (Some vs))"
| Array_elem: "x \<in> set vs \<Longrightarrow> unencodable False x \<Longrightarrow> unencodable oe (VArray t vs)"
| Ptr_elem: "unencodable False x \<Longrightarrow> unencodable oe (VPtr t (Some x))"
| Interface_elem: "unencodable False x \<Longrightarrow> unencodable oe (VInterface (Some x))"
| Struct_field:
    "TStruct n flds \<noteq> typeBSONData \<Longrightarrow> TStruct n flds \<noteq> typeCodeWithScope
       \<Longrightarrow> TStruct n flds \<noteq> typeRegexp
       \<Longrightarrow> structSpecForType (TStruct n flds) = Inr ss \<Longrightarrow> fs \<in> set (ss_l ss)
       \<Longrightarrow> FieldByIndex (VStruct n flds vs) (fs_index fs) = Some x
       \<Longrightarrow> unencodable (fs_omitEmpty fs) x
       \<Longrightarrow> unencodable oe (VStruct n flds vs)"
| Scope_entry:
    "TStruct n flds = typeCodeWithScope \<Longrightarrow> asCodeWithScope vs = Some (code, Some kvs)
       \<Longrightarrow> (k, x) \<in> set kvs \<Longrightarrow> unencodable False (ValueOf x)
       \<Longrightarrow> unencodable oe (VStruct n flds vs)"



section \<open>The first value at which an encoding fails\<close>

text \<open>
  \<open>idFirst kvs\<close>: the entries of a map in the order in which \<open>writeMap\<close> encodes them at
  top level, \<open>kvs\<close> being the order of \<open>MapKeys\<close>: the entry of \<open>_id\<close> first, if there is
  one, and the others as they come.
\<close>

definition idFirst :: "(string \<times> val) list \<Rightarrow> (string \<times> val) list" where
  "idFirst kvs =
     (case map_of kvs ''_id'' of
        None \<Rightarrow> kvs
      | Some idValue \<Rightarrow> (''_id'', idValue) # filter (\<lambda>kv. fst kv \<noteq> ''_id'') kvs)"

text \<open>
  \<open>reaches v x\<close>: \<open>encodeValue\<close>, applied to \<open>v\<close>, comes to encode the value \<open>x\<close> inside \<open>v\<close>,
  every loop on the way having encoded what stands before without a failure. In each
  rule \<open>pre\<close> is what the loop has encoded before it comes to \<open>y\<close>, and \<open>x\<close> is \<open>y\<close> or a
  value that the encoding of \<open>y\<close> reaches. A struct with an encoder of its own
  (\<open>BSONData\<close>, \<open>Regexp\<close>, \<open>time.Time\<close>) has no values inside; in a \<open>CodeWithScope\<close> they are
  the values of the scope.
\<close>

inductive reaches :: "val \<Rightarrow> val \<Rightarrow> bool" where
  D_item:
    "\<forall>e. \<not> isl (writeD_items pre e) \<Longrightarrow> y = x \<or> reaches y x
       \<Longrightarrow> reaches (VD (Some (pre @ (k, y) # post))) x"
| Map_entry:
    "kindOf kt = KString \<Longrightarrow> \<forall>e. \<not> isl (writeMap_keys False pre e) \<Longrightarrow> y = x \<or> reaches y x
       \<Longrightarrow> reaches (VMap kt et (Some (pre @ (k, y) # post))) x"
| Slice_elem:
    "kindOf t \<noteq> KUint8 \<Longrightarrow> \<forall>e. \<not> isl (encodeArray_elems (length (pre @ y # post)) 0 pre e)
       \<Longrightarrow> y = x \<or> reaches y x
       \<Longrightarrow> reaches (VSlice t (Some (pre @ y # post))) x"
| Array_elem:
    "\<forall>e. \<not> isl (encodeArray_elems (length (pre @ y # post)) 0 pre e)
       \<Longrightarrow> y = x \<or> reaches y x
       \<Longrightarrow> reaches (VArray t (pre @ y # post)) x"
| Ptr_elem: "y = x \<or> reaches y x \<Longrightarrow> reaches (VPtr t (Some y)) x"
| Interface_elem: "y = x \<or> reaches y x \<Longrightarrow> reaches (VInterface (Some y)) x"
| Struct_field:
    "TStruct n flds \<noteq> typeBSONData \<Longrightarrow> TStruct n flds \<noteq> typeCodeWithScope
       \<Longrightarrow> TStruct n flds \<noteq> typeRegexp \<Longrightarrow> TStruct n flds \<noteq> typeTime
       \<Longrightarrow> structSpecForType (TStruct n flds) = Inr ss \<Longrightarrow> ss_l ss = pre @ fs # post
       \<Longrightarrow> \<forall>e. \<not> isl (writeStruct_fields pre (VStruct n flds vs) e)
       \<Longrightarrow> FieldByIndex (VStruct n flds vs) (fs_index fs) = Some y
       \<Longrightarrow> y = x \<or> reaches y x
       \<Longrightarrow> reaches (VStruct n flds vs) x"
| Scope_entry:
    "TStruct n flds = typeCodeWithScope
       \<Longrightarrow> asCodeWithScope vs = Some (code, Some (pre @ (k, y) # post))
       \<Longrightarrow> \<forall>e. \<not> isl (encodeCodeWithScope_items pre e)
       \<Longrightarrow> ValueOf y = x \<or> reaches (ValueOf y) x
       \<Longrightarrow> reaches (VStruct n flds vs) x"

text \<open>
  \<open>Encode_reaches doc x\<close>: \<open>Encode\<close>, applied to \<open>doc\<close>, comes to encode \<open>x\<close>. \<open>Encode\<close> takes
  what a pointer or an interface holds, and then writes a \<open>D\<close>, a map whose keys are of
  type \<open>string\<close> (the entry of \<open>_id\<close> first) or a struct. The structs that have an encoder
  of their own are left out here.
\<close>

inductive document_reaches :: "val \<Rightarrow> val \<Rightarrow> bool" where
  D: "reaches (VD (Some items)) x \<Longrightarrow> document_reaches (VD (Some items)) x"
| Map:
    "reaches (VMap TString et (Some (idFirst kvs))) x
       \<Longrightarrow> document_reaches (VMap TString et (Some kvs)) x"
| Struct:
    "TStruct n flds \<noteq> typeCodeWithScope \<Longrightarrow> reaches (VStruct n flds vs) x
       \<Longrightarrow> document_reaches (VStruct n flds vs) x"

definition Encode_reaches :: "val \<Rightarrow> val \<Rightarrow> bool" where
  "Encode_reaches doc x =
     document_reaches (case doc of VInterface p \<Rightarrow> Elem doc | VPtr t p \<Rightarrow> Elem doc | _ \<Rightarrow> doc) x"

section \<open>Pool: the idle set is bounded\<close>

lemma Get_idle_bounded: "idle_bounded s \<Longrightarrow> idle_bounded (snd (Get r s))"
  by (auto simp: idle_bounded_def Get_def split: list.splits sum.splits)

lemma Close_idle_bounded: "idle_bounded s \<Longrightarrow> idle_bounded (snd (Close c s))"
  by (auto simp: idle_bounded_def Close_def split: option.splits)

lemma Get_capacity: "capacity (pool (snd (Get r s))) = capacity (pool s)"
  by (auto simp: Get_def split: list.splits sum.splits)

lemma Close_capacity: "capacity (pool (snd (Close c s))) = capacity (pool s)"
  by (auto simp: Close_def split: option.splits)

lemma step_idle_bounded: "idle_bounded s \<Longrightarrow> idle_bounded (step s x)"
proof (cases x)
  case (OpGet r)
  assume b: "idle_bounded s"
  obtain res s' where g: "Get r s = (res, s')" by (cases "Get r s")
  from Get_idle_bounded [OF b, of r] g have "idle_bounded s'" by simp
  then show ?thesis using OpGet g
    by (cases res) (simp_all add: step_def idle_bounded_def)
next
  case (OpClose i)
  assume b: "idle_bounded s"
  obtain h s' where c: "Close (handles s ! i) s = (h, s')" by (cases "Close (handles s ! i) s")
  from Close_idle_bounded [OF b, of "handles s ! i"] c have "idle_bounded s'" by simp
  then show ?thesis using OpClose c b
    by (simp add: step_def idle_bounded_def)
next
  case (OpFail c)
  assume "idle_bounded s"
  then show ?thesis using OpFail by (simp add: step_def idle_bounded_def)
qed

lemma step_capacity: "capacity (pool (step s x)) = capacity (pool s)"
proof (cases x)
  case (OpGet r)
  obtain res s' where g: "Get r s = (res, s')" by (cases "Get r s")
  from Get_capacity [of r s] g have "capacity (pool s') = capacity (pool s)" by simp
  then show ?thesis using OpGet g by (cases res) (simp_all add: step_def)
next
  case (OpClose i)
  obtain h s' where c: "Close (handles s ! i) s = (h, s')" by (cases "Close (handles s ! i) s")
  from Close_capacity [of "handles s ! i" s] c have "capacity (pool s') = capacity (pool s)" by simp
  then show ?thesis using OpClose c by (simp add: step_def)
next
  case (OpFail c)
  then show ?thesis by (simp add: step_def)
qed

lemma run_idle_bounded: "idle_bounded s \<Longrightarrow> idle_bounded (run s ops)"
  unfolding run_def
  by (induction ops arbitrary: s) (simp_all add: step_idle_bounded)

lemma run_capacity: "capacity (pool (run s ops)) = capacity (pool s)"
  unfolding run_def
  by (induction ops arbitrary: s) (simp_all add: step_capacity)

text \<open>
  C8. On a pool created by \<open>NewPool\<close> with capacity \<open>maxIdle\<close>, after every sequence of
  \<open>Get\<close> and \<open>Close\<close> calls (and of connections failing in between) the number of idle
  connections is at most \<open>maxIdle\<close>; a single \<open>Get\<close> and a single \<open>Close\<close> each keep
  the bound.
\<close>

theorem pool_idle_never_exceeds_maxIdle:
  assumes "NewPool maxIdle = Inr s0"
  shows "int (length (conns (pool (run s0 ops)))) \<le> maxIdle
       \<and> int (length (conns (pool (snd (Get r (run s0 ops)))))) \<le> maxIdle
       \<and> int (length (conns (pool (snd (Close c (run s0 ops)))))) \<le> maxIdle"
proof -
  from assms have nonneg: "0 \<le> maxIdle" and cap: "capacity (pool s0) = nat maxIdle"
    and b0: "idle_bounded s0"
    by (auto simp: NewPool_def idle_bounded_def split: if_splits)
  let ?s = "run s0 ops"
  have b: "idle_bounded ?s" by (rule run_idle_bounded [OF b0])
  have c: "capacity (pool ?s) = nat maxIdle" by (simp add: run_capacity cap)
  have "idle_bounded (snd (Get r ?s))" "idle_bounded (snd (Close c ?s))"
    using b by (rule Get_idle_bounded, rule Close_idle_bounded)
  then show ?thesis
    using b c nonneg by (simp add: idle_bounded_def Get_capacity Close_capacity) linarith
qed

theorem pool_idle_never_exceeds_maxIdle_witness:
  "NewPool 2 = Inr \<lparr>pool = \<lparr>conns = [], capacity = 2\<rparr>, errs = {}, closed = [], handles = []\<rparr>
   \<and> int (length (conns (pool (run \<lparr>pool = \<lparr>conns = [], capacity = 2\<rparr>, errs = {}, closed = [],
        handles = []\<rparr>
        [OpGet (Inr (Some 1)), OpGet (Inr (Some 2)), OpGet (Inr (Some 3)),
         OpClose 0, OpClose 1, OpClose 2])))) \<le> 2
   \<and> conns (pool (run \<lparr>pool = \<lparr>conns = [], capacity = 2\<rparr>, errs = {}, closed = [],
        handles = []\<rparr>
        [OpGet (Inr (Some 1)), OpGet (Inr (Some 2)), OpGet (Inr (Some 3)),
         OpClose 0, OpClose 1, OpClose 2])) = [1, 2]"
proof -
  have n: "NewPool 2 = Inr \<lparr>pool = \<lparr>conns = [], capacity = 2\<rparr>, errs = {}, closed = [], handles = []\<rparr>"
    by (simp add: NewPool_def)
  have r: "conns (pool (run \<lparr>pool = \<lparr>conns = [], capacity = 2\<rparr>, errs = {}, closed = [],
        handles = []\<rparr>
        [OpGet (Inr (Some 1)), OpGet (Inr (Some 2)), OpGet (Inr (Some 3)),
         OpClose 0, OpClose 1, OpClose 2])) = [1, 2]"
    by (simp add: run_def step_def Get_def Close_def)
  from pool_idle_never_exceeds_maxIdle [OF n] n r show ?thesis by simp
qed

section \<open>Evaluating the model\<close>

lemmas buffer_defs =
  Write_def WriteByte_def WriteCString_def WriteUint32_def WriteUint64_def Next_def
  beginDoc_def endDoc_def writeKindName_def putUint32_def putUint64_def stringBytes_def

lemmas encoder_defs =
  encodeBool_def encodeInt_def encodeUint16_def encodeUint_def encodeInt32_def
  encodeInt64_def encodeUint64_def encodeFloat_def encodeString_def encodeRegexp_def
  encodeObjectId_def encodeBSONData_def encodeMinMax_def encodeTime_def encodeByteSlice_def
  abort_def MinInt32_def MaxInt32_def

lemmas Encode_defs =
  Encode_def handleAbort_def returnBuffer_def Elem_def structSpecForType_def
  compileField_def typeBSONData_def typeCodeWithScope_def typeRegexp_def typeTime_def
  defaultFieldSpec_def Field_def Let_def

section \<open>Pool: a connection with a permanent error\<close>

text \<open>
  C2. The claim says that \<open>Close\<close> on a handle whose connection has recorded a permanent
  error calls the connection's own \<open>Close\<close> and discards it. The code returns at
  \<open>if c.Err() != nil\<close> before either: for the handle of connection 7, with \<open>Err()\<close> not
  nil, \<open>Close\<close> leaves the state as it was (\<open>closed\<close> stays empty, so the connection's
  \<open>Close\<close> was not called; nothing is added to the idle connections) and the handle still
  holds the connection.
\<close>

theorem Close_with_error_does_not_close_connection:
  "Close \<lparr>Conn = Some 7\<rparr>
     \<lparr>pool = \<lparr>conns = [], capacity = 2\<rparr>, errs = {7}, closed = [],
      handles = [\<lparr>Conn = Some 7\<rparr>]\<rparr>
   = (\<lparr>Conn = Some 7\<rparr>,
      \<lparr>pool = \<lparr>conns = [], capacity = 2\<rparr>, errs = {7}, closed = [],
       handles = [\<lparr>Conn = Some 7\<rparr>]\<rparr>)"
  by (simp add: Close_def)

section \<open>Object identifiers\<close>

lemma newObjectId_length: "length (newObjectId t c) = 12"
  by (simp add: newObjectId_def Let_def)

lemma newObjectId_seconds: "bigEndian32 (take 4 (newObjectId t c)) = ucast (Unix t)"
proof (rule bit_word_eqI)
  fix n
  assume "n < LENGTH(32)"
  then consider "n < 8" | "8 \<le> n" "n < 16" | "16 \<le> n" "n < 24" | "24 \<le> n" "n < 32"
    by fastforce
  then show "bit (bigEndian32 (take 4 (newObjectId t c))) n = bit (ucast (Unix t) :: 32 word) n"
    by cases
      (auto simp: newObjectId_def Let_def bigEndian32_def bit_simps)
qed

lemma mod_succ_bytes:
  "(c + 1) mod 18446744073709551616 mod 256 = (c mod 18446744073709551616 + 1) mod (256::int)"
proof -
  have d: "(256::int) dvd 18446744073709551616" by simp
  have "(c + 1) mod 18446744073709551616 mod 256 = (c + 1) mod 256"
    by (rule mod_mod_cancel [OF d])
  moreover have "(c mod 18446744073709551616 + 1) mod 256
      = (c mod 18446744073709551616 mod 256 + 1) mod 256"
    by (simp add: mod_add_left_eq)
  moreover have "c mod 18446744073709551616 mod 256 = c mod 256"
    by (rule mod_mod_cancel [OF d])
  ultimately show ?thesis by (simp add: mod_add_left_eq)
qed

lemma ucast_succ: "(ucast (c + 1 :: 64 word) :: 8 word) = ucast c + 1"
  by transfer (simp add: take_bit_eq_mod mod_succ_bytes)

lemma newObjectId_last: "last (newObjectId t c) = ucast c"
  by (simp add: newObjectId_def Let_def)

lemma newObjectId_succ_neq: "newObjectId t c \<noteq> newObjectId t' (c + 1)"
proof
  assume "newObjectId t c = newObjectId t' (c + 1)"
  then have "last (newObjectId t c) = last (newObjectId t' (c + 1))" by simp
  then have "(ucast c :: 8 word) = ucast c + 1"
    by (simp only: newObjectId_last ucast_succ)
  then show False by simp
qed

lemma NewObjectId_Inr:
  assumes "NewObjectId now rnd c = Inr (oid, c')"
  shows "oid = newObjectId now c'"
    and "c \<noteq> 0 \<Longrightarrow> c' = c + 1"
  using assms
  by (auto simp: NewObjectId_def nextOidCounter_def split: if_splits sum.splits)

text \<open>
  C7, as the code has it. An identifier returned by \<open>NewObjectId\<close> is 12 bytes long and
  its first four bytes are the low 32 bits of the creation time in seconds since the
  epoch, most significant byte first. Of two identifiers made one right after the other
  (\<open>c1\<close> is \<open>oidCounter\<close> between the two calls) the second differs from the first whenever
  \<open>c1\<close> is not 0, that is, unless the counter has just wrapped around to the value that
  makes \<open>nextOidCounter\<close> draw a new random seed.
\<close>

theorem NewObjectId_shape:
  assumes "NewObjectId t1 r1 c0 = Inr (id1, c1)"
    and "NewObjectId t2 r2 c1 = Inr (id2, c2)"
  shows "length id1 = 12 \<and> bigEndian32 (take 4 id1) = ucast (Unix t1)
       \<and> (c1 \<noteq> 0 \<longrightarrow> id1 \<noteq> id2)"
proof -
  have 1: "id1 = newObjectId t1 c1" by (rule NewObjectId_Inr(1) [OF assms(1)])
  have 2: "id2 = newObjectId t2 c2" by (rule NewObjectId_Inr(1) [OF assms(2)])
  have "id1 \<noteq> id2" if "c1 \<noteq> 0"
  proof -
    from NewObjectId_Inr(2) [OF assms(2) that] have "c2 = c1 + 1" .
    with 1 2 show ?thesis by (simp add: newObjectId_succ_neq)
  qed
  with 1 show ?thesis by (simp add: newObjectId_length newObjectId_seconds)
qed

theorem NewObjectId_shape_witness:
  "NewObjectId \<lparr>Unix = 1700000000, Nanosecond = 5\<rparr> (Inr 41) 0
     = Inr ([101, 83, 241, 0, 0, 0, 0, 0, 0, 0, 0, 42], 42)
   \<and> NewObjectId \<lparr>Unix = 1700000000, Nanosecond = 9\<rparr> (Inl ''not read'') 42
     = Inr ([101, 83, 241, 0, 0, 0, 0, 0, 0, 0, 0, 43], 43)
   \<and> length [101, 83, 241, 0, 0, 0, 0, 0, 0, 0, 0, 42 :: byte] = 12
   \<and> bigEndian32 (take 4 [101, 83, 241, 0, 0, 0, 0, 0, 0, 0, 0, 42]) = 1700000000
   \<and> [101, 83, 241, 0, 0, 0, 0, 0, 0, 0, 0, 42]
     \<noteq> [101, 83, 241, 0, 0, 0, 0, 0, 0, 0, 0, 43 :: byte]"
proof -
  have a: "NewObjectId \<lparr>Unix = 1700000000, Nanosecond = 5\<rparr> (Inr 41) 0
     = Inr ([101, 83, 241, 0, 0, 0, 0, 0, 0, 0, 0, 42], 42)"
    by (simp add: NewObjectId_def nextOidCounter_def newObjectId_def)
  have b: "NewObjectId \<lparr>Unix = 1700000000, Nanosecond = 9\<rparr> (Inl ''not read'') 42
     = Inr ([101, 83, 241, 0, 0, 0, 0, 0, 0, 0, 0, 43], 43)"
    by (simp add: NewObjectId_def nextOidCounter_def newObjectId_def)
  from NewObjectId_shape [OF a b] a b show ?thesis by simp
qed

text \<open>
  The claim as stated fails: in a fresh process (\<open>oidCounter = 0\<close>) whose random source
  yields \<open>0xffffffffffffffff\<close>, the counter wraps to 0, so the next call reads the random
  source again; if that yields the same value, two identifiers made back to back within
  one second are equal.
\<close>

theorem NewObjectId_equal_after_wrap:
  "NewObjectId \<lparr>Unix = 1700000000, Nanosecond = 5\<rparr> (Inr (- 1)) 0
     = Inr ([101, 83, 241, 0, 0, 0, 0, 0, 0, 0, 0, 0], 0)
   \<and> NewObjectId \<lparr>Unix = 1700000000, Nanosecond = 9\<rparr> (Inr (- 1)) 0
     = Inr ([101, 83, 241, 0, 0, 0, 0, 0, 0, 0, 0, 0], 0)"
  by (simp add: NewObjectId_def nextOidCounter_def newObjectId_def)

section \<open>The field mapping and struct tags\<close>

text \<open>
  C1. The claim (and the comment on \<open>Encode\<close>) says that a field whose tag name is \<open>-\<close> is
  ignored. \<open>compileStructSpec\<close> only skips the name and the flags of such a tag and then
  maps the field under its own name: for \<open>struct { A int `bson:"-"` }\<close> holding 7,
  \<open>Encode\<close> returns a document with the element \<open>A\<close> (kind \<open>0x10\<close>, name \<open>A\<close>, value 7).
\<close>

theorem Encode_writes_field_tagged_dash:
  "Encode None (VStruct ''T'' [StructField ''A'' [] False TInt ''-''] [VScalar (VInt 7)])
   = Returned (Some [12, 0, 0, 0, 16, 65, 0, 7, 0, 0, 0, 0]) None"
  by (simp add: Encode_defs encoder_defs buffer_defs kind_defs)

text \<open>
  C5. For \<open>type Inner struct { X int }\<close> and \<open>type Outer struct { Inner; X string }\<close> the
  field \<open>X\<close> of \<open>Outer\<close> is at a shallower depth than the \<open>X\<close> of the embedded \<open>Inner\<close>, which
  the traversal meets first. \<open>compileStructSpec\<close> replaces the entry of the map \<open>ss.m\<close> but
  leaves the deeper field in the list \<open>ss.l\<close> (only the branch for equal depth filters the
  list), so the list holds both fields and \<open>Encode\<close> writes two elements named \<open>X\<close>.
\<close>

theorem shallower_field_does_not_override_in_list:
  "map_sum id (\<lambda>ss. map (\<lambda>fs. (fs_name fs, fs_index fs)) (ss_l ss))
     (structSpecForType (TStruct ''Outer''
        [StructField ''Inner'' [] True (TStruct ''Inner'' [StructField ''X'' [] False TInt []]) [],
         StructField ''X'' [] False TString []]))
   = Inr [(''X'', [0, 0]), (''X'', [1])]
   \<and> Encode None (VStruct ''Outer''
        [StructField ''Inner'' [] True (TStruct ''Inner'' [StructField ''X'' [] False TInt []]) [],
         StructField ''X'' [] False TString []]
        [VStruct ''Inner'' [StructField ''X'' [] False TInt []] [VScalar (VInt 1)],
         VScalar (VString ''s'')])
   = Returned (Some [21, 0, 0, 0, 16, 88, 0, 1, 0, 0, 0, 2, 88, 0, 2, 0, 0, 0, 115, 0, 0]) None"
  by (simp add: Encode_defs encoder_defs buffer_defs kind_defs)

text \<open>
  C10. There are inputs on which \<open>Encode\<close> panics instead of returning an error: a struct
  whose field tag contains \<open>/c\<close> (as the tag \<open>new/c\<close> in deprecated.go does), and a struct
  whose field tag has a flag other than \<open>omitempty\<close>. The panic of \<open>compileStructSpec\<close> is
  not an \<open>aborted\<close> value, so \<open>handleAbort\<close> raises it again, whatever the buffer.
\<close>

theorem Encode_panics_on_field_tag:
  "Encode buf (VStruct ''T'' [StructField ''New'' [] False TBool ''new/c''] [VScalar (VBool True)])
     = Panic ''use ,omitempty instead of /c in bson field tag''
   \<and> Encode buf (VStruct ''T'' [StructField ''A'' [] False TBool ''a,omitempty,foo'']
        [VScalar (VBool True)])
     = Panic ''bson: unknown field flag foo for type T''
   \<and> handleAbort (Inl (panicked msg)) = Panic msg"
  by (simp add: Encode_defs encoder_defs buffer_defs kind_defs)

section \<open>Integer elements\<close>

lemma scast_eq_0_iff_8: "(scast i :: 64 word) = 0 \<longleftrightarrow> i = 0" for i :: "8 word"
proof -
  have "sint (scast i :: 64 word) = sint i" by (rule sint_up_scast) (simp add: is_up)
  then show ?thesis by (metis signed_eq_0_iff)
qed

lemma scast_eq_0_iff_16: "(scast i :: 64 word) = 0 \<longleftrightarrow> i = 0" for i :: "16 word"
proof -
  have "sint (scast i :: 64 word) = sint i" by (rule sint_up_scast) (simp add: is_up)
  then show ?thesis by (metis signed_eq_0_iff)
qed

lemma scast_eq_0_iff_32: "(scast i :: 64 word) = 0 \<longleftrightarrow> i = 0" for i :: "32 word"
proof -
  have "sint (scast i :: 64 word) = sint i" by (rule sint_up_scast) (simp add: is_up)
  then show ?thesis by (metis signed_eq_0_iff)
qed

lemma ucast_eq_0_iff_8: "(ucast u :: 64 word) = 0 \<longleftrightarrow> u = 0" for u :: "8 word"
proof -
  have "uint (ucast u :: 64 word) = uint u" by (rule uint_up_ucast) (simp add: is_up)
  then show ?thesis by (metis unsigned_eq_0_iff)
qed

lemma ucast_eq_0_iff_16: "(ucast u :: 64 word) = 0 \<longleftrightarrow> u = 0" for u :: "16 word"
proof -
  have "uint (ucast u :: 64 word) = uint u" by (rule uint_up_ucast) (simp add: is_up)
  then show ?thesis by (metis unsigned_eq_0_iff)
qed

lemma ucast_eq_0_iff_32: "(ucast u :: 64 word) = 0 \<longleftrightarrow> u = 0" for u :: "32 word"
proof -
  have "uint (ucast u :: 64 word) = uint u" by (rule uint_up_ucast) (simp add: is_up)
  then show ?thesis by (metis unsigned_eq_0_iff)
qed

lemma uint_ucast_32: "uint (ucast u :: 64 word) = uint u" for u :: "32 word"
  by (rule uint_up_ucast) (simp add: is_up)

lemma sint_negative_iff: "sint u < 0 \<longleftrightarrow> 9223372036854775808 \<le> uint u" for u :: "64 word"
proof -
  have "sint u < 0 \<longleftrightarrow> bit u 63" using bit_last_iff [of u] by simp
  also have "\<dots> \<longleftrightarrow> bit (uint u) 63" by (simp add: bit_uint_iff)
  also have "\<dots> \<longleftrightarrow> odd (uint u div 2 ^ 63)" by (rule bit_iff_odd)
  also have "\<dots> \<longleftrightarrow> 9223372036854775808 \<le> uint u"
  proof -
    have lt: "uint u < 18446744073709551616" using uint_lt2p [of u] by simp
    have ge: "0 \<le> uint u" by simp
    show ?thesis
    proof (cases "9223372036854775808 \<le> uint u")
      case True
      with lt have "uint u div 2 ^ 63 = 1" by simp
      with True show ?thesis by simp
    next
      case False
      with ge have "uint u div 2 ^ 63 = 0" by simp
      with False show ?thesis by simp
    qed
  qed
  finally show ?thesis .
qed

lemma sint_ucast_32_nonneg: "\<not> sint (ucast u :: 64 word) < 0" for u :: "32 word"
proof -
  have "uint u < 4294967296" using uint_lt2p [of u] by simp
  then show ?thesis by (simp add: sint_negative_iff uint_ucast_32)
qed

lemma effectOf_append [simp]: "effectOf e (Inr (e @ k # bs)) = Element k"
  by (simp add: effectOf_def)

lemma effectOf_same [simp]: "effectOf e (Inr e) = Nothing"
  by (simp add: effectOf_def)

lemma effectOf_aborted [simp]: "effectOf e (Inl (aborted err)) = Aborts err"
  by (simp add: effectOf_def)

lemma writeKindName_eq: "writeKindName kind name e = e @ of_int kind # stringBytes name @ [0]"
  by (simp add: writeKindName_def WriteCString_def WriteByte_def)

lemmas write_appends = writeKindName_eq WriteUint32_def WriteUint64_def WriteCString_def
  WriteByte_def Write_def

text \<open>
  C3, as the code has it. The kind of an integer element depends on the Go type of the
  value. A value of type \<open>int\<close> is written with the 32-bit kind \<open>0x10\<close> if and only if it
  lies in the int32 range and with the 64-bit kind \<open>0x12\<close> otherwise; \<open>int8\<close>, \<open>int16\<close> and
  \<open>int32\<close> values are always written 32-bit, \<open>int64\<close> values always 64-bit, whatever the
  value. A \<open>uint\<close> or \<open>uint32\<close> value is written 32-bit iff it is at most 2147483647, else
  64-bit; \<open>uint8\<close> and \<open>uint16\<close> values are always written 32-bit, \<open>uint64\<close> values always
  64-bit. A \<open>uint\<close> or \<open>uint64\<close> value above the int64 range (18446744073709551615 among
  them) aborts the encoding with an error. A zero in a field flagged omitempty writes
  nothing.
\<close>

theorem integer_kind_by_type_and_range:
  "effectOf e (encodeValue name fs (VScalar (VInt i)) e) =
     (if i = 0 \<and> fs_omitEmpty fs then Nothing
      else if - 2147483648 \<le> sint i \<and> sint i \<le> 2147483647 then Element 0x10
      else Element 0x12)
   \<and> effectOf e (encodeValue name fs (VScalar (VInt8 i8)) e) =
     (if i8 = 0 \<and> fs_omitEmpty fs then Nothing else Element 0x10)
   \<and> effectOf e (encodeValue name fs (VScalar (VInt16 i16)) e) =
     (if i16 = 0 \<and> fs_omitEmpty fs then Nothing else Element 0x10)
   \<and> effectOf e (encodeValue name fs (VScalar (VInt32 i32)) e) =
     (if i32 = 0 \<and> fs_omitEmpty fs then Nothing else Element 0x10)
   \<and> effectOf e (encodeValue name fs (VScalar (VInt64 i64)) e) =
     (if i64 = 0 \<and> fs_omitEmpty fs then Nothing else Element 0x12)
   \<and> effectOf e (encodeValue name fs (VScalar (VUint u)) e) =
     (if u = 0 \<and> fs_omitEmpty fs then Nothing
      else if 9223372036854775808 \<le> uint u
        then Aborts (errorString ''bson: uint value does not fit in int64'')
      else if uint u \<le> 2147483647 then Element 0x10
      else Element 0x12)
   \<and> effectOf e (encodeValue name fs (VScalar (VUint8 u8)) e) =
     (if u8 = 0 \<and> fs_omitEmpty fs then Nothing else Element 0x10)
   \<and> effectOf e (encodeValue name fs (VScalar (VUint16 u16)) e) =
     (if u16 = 0 \<and> fs_omitEmpty fs then Nothing else Element 0x10)
   \<and> effectOf e (encodeValue name fs (VScalar (VUint32 u32)) e) =
     (if u32 = 0 \<and> fs_omitEmpty fs then Nothing
      else if uint u32 \<le> 2147483647 then Element 0x10
      else Element 0x12)
   \<and> effectOf e (encodeValue name fs (VScalar (VUint64 u64)) e) =
     (if u64 = 0 \<and> fs_omitEmpty fs then Nothing
      else if 9223372036854775808 \<le> uint u64
        then Aborts (errorString ''bson: uint64 value does not fit in int64'')
      else Element 0x12)
   \<and> effectOf e (encodeValue name fs (VScalar (VUint64 18446744073709551615)) e) =
       Aborts (errorString ''bson: uint64 value does not fit in int64'')"
proof -
  have 1: "effectOf e (encodeValue name fs (VScalar (VInt i)) e) =
     (if i = 0 \<and> fs_omitEmpty fs then Nothing
      else if - 2147483648 \<le> sint i \<and> sint i \<le> 2147483647 then Element 0x10
      else Element 0x12)"
    by (simp add: encodeInt_def MinInt32_def MaxInt32_def write_appends kind_defs)
  have 2: "effectOf e (encodeValue name fs (VScalar (VInt8 i8)) e) =
     (if i8 = 0 \<and> fs_omitEmpty fs then Nothing else Element 0x10)"
    by (simp add: encodeInt32_def scast_eq_0_iff_8 write_appends kind_defs)
  have 3: "effectOf e (encodeValue name fs (VScalar (VInt16 i16)) e) =
     (if i16 = 0 \<and> fs_omitEmpty fs then Nothing else Element 0x10)"
    by (simp add: encodeInt32_def scast_eq_0_iff_16 write_appends kind_defs)
  have 4: "effectOf e (encodeValue name fs (VScalar (VInt32 i32)) e) =
     (if i32 = 0 \<and> fs_omitEmpty fs then Nothing else Element 0x10)"
    by (simp add: encodeInt32_def scast_eq_0_iff_32 write_appends kind_defs)
  have 5: "effectOf e (encodeValue name fs (VScalar (VInt64 i64)) e) =
     (if i64 = 0 \<and> fs_omitEmpty fs then Nothing else Element 0x12)"
    by (simp add: encodeInt64_def write_appends kind_defs)
  have 6: "effectOf e (encodeValue name fs (VScalar (VUint u)) e) =
     (if u = 0 \<and> fs_omitEmpty fs then Nothing
      else if 9223372036854775808 \<le> uint u
        then Aborts (errorString ''bson: uint value does not fit in int64'')
      else if uint u \<le> 2147483647 then Element 0x10
      else Element 0x12)"
    by (simp add: encodeUint_def MaxInt32_def sint_negative_iff abort_def write_appends kind_defs)
  have 7: "effectOf e (encodeValue name fs (VScalar (VUint8 u8)) e) =
     (if u8 = 0 \<and> fs_omitEmpty fs then Nothing else Element 0x10)"
    by (simp add: encodeUint16_def ucast_eq_0_iff_8 write_appends kind_defs)
  have 8: "effectOf e (encodeValue name fs (VScalar (VUint16 u16)) e) =
     (if u16 = 0 \<and> fs_omitEmpty fs then Nothing else Element 0x10)"
    by (simp add: encodeUint16_def ucast_eq_0_iff_16 write_appends kind_defs)
  have 9: "effectOf e (encodeValue name fs (VScalar (VUint32 u32)) e) =
     (if u32 = 0 \<and> fs_omitEmpty fs then Nothing
      else if uint u32 \<le> 2147483647 then Element 0x10
      else Element 0x12)"
    by (simp add: encodeUint_def MaxInt32_def sint_ucast_32_nonneg uint_ucast_32
        ucast_eq_0_iff_32 abort_def write_appends kind_defs)
  have 10: "effectOf e (encodeValue name fs (VScalar (VUint64 u64)) e) =
     (if u64 = 0 \<and> fs_omitEmpty fs then Nothing
      else if 9223372036854775808 \<le> uint u64
        then Aborts (errorString ''bson: uint64 value does not fit in int64'')
      else Element 0x12)"
    by (simp add: encodeUint64_def sint_negative_iff abort_def write_appends kind_defs)
  have 11: "effectOf e (encodeValue name fs (VScalar (VUint64 18446744073709551615)) e) =
       Aborts (errorString ''bson: uint64 value does not fit in int64'')"
    by (simp add: encodeUint64_def abort_def)
  from 1 2 3 4 5 6 7 8 9 10 11 show ?thesis by blast
qed

text \<open>
  The claim as stated fails for a value of type \<open>int64\<close>: 5 lies in the int32 range, yet
  the element \<open>x\<close> of the document \<open>D{{"x", int64(5)}}\<close> is written with the 64-bit kind
  \<open>0x12\<close> and eight bytes.
\<close>

theorem int64_in_int32_range_written_64bit:
  "Encode None (VD (Some [(''x'', VScalar (VInt64 5))]))
     = Returned (Some [16, 0, 0, 0, 0x12, 120, 0, 5, 0, 0, 0, 0, 0, 0, 0, 0]) None
   \<and> - 2147483648 \<le> sint (5 :: 64 word) \<and> sint (5 :: 64 word) \<le> 2147483647"
  by (simp add: Encode_defs encoder_defs buffer_defs kind_defs)

section \<open>The loops of the traversal\<close>

lemma writeD_items_append:
  "writeD_items (pre @ rest) e =
     (case writeD_items pre e of Inl p \<Rightarrow> Inl p | Inr e' \<Rightarrow> writeD_items rest e')"
proof (induction pre arbitrary: e)
  case Nil
  show ?case by simp
next
  case (Cons kv pre)
  obtain k x where kv: "kv = (k, x)" by (cases kv)
  show ?case
    by (cases "encodeValue k defaultFieldSpec x e") (simp_all add: kv Cons.IH)
qed

lemma writeMap_keys_append:
  "writeMap_keys False (pre @ rest) e =
     (case writeMap_keys False pre e of Inl p \<Rightarrow> Inl p | Inr e' \<Rightarrow> writeMap_keys False rest e')"
proof (induction pre arbitrary: e)
  case Nil
  show ?case by simp
next
  case (Cons kv pre)
  obtain k x where kv: "kv = (k, x)" by (cases kv)
  show ?case
    by (cases "encodeValue k defaultFieldSpec x e") (simp_all add: kv Cons.IH)
qed

lemma encodeCodeWithScope_items_append:
  "encodeCodeWithScope_items (pre @ rest) e =
     (case encodeCodeWithScope_items pre e of
        Inl p \<Rightarrow> Inl p
      | Inr e' \<Rightarrow> encodeCodeWithScope_items rest e')"
proof (induction pre arbitrary: e)
  case Nil
  show ?case by simp
next
  case (Cons kv pre)
  obtain k x where kv: "kv = (k, x)" by (cases kv)
  show ?case
    by (cases "encodeValue k defaultFieldSpec (ValueOf x) e") (simp_all add: kv Cons.IH)
qed

lemma encodeArray_elems_append:
  "encodeArray_elems n i (pre @ rest) e =
     (case encodeArray_elems n i pre e of
        Inl p \<Rightarrow> Inl p
      | Inr e' \<Rightarrow> encodeArray_elems n (i + length pre) rest e')"
proof (induction pre arbitrary: i e)
  case Nil
  show ?case by simp
next
  case (Cons x pre)
  show ?case
    by (cases "encodeValue (if n < length itoas then itoas ! i else Itoa i) defaultFieldSpec x e")
      (simp_all add: Cons.IH split: sum.splits)
qed

lemma writeStruct_fields_append:
  "writeStruct_fields (pre @ rest) v e =
     (case writeStruct_fields pre v e of
        Inl p \<Rightarrow> Inl p
      | Inr e' \<Rightarrow> writeStruct_fields rest v e')"
proof (induction pre arbitrary: e)
  case Nil
  show ?case by simp
next
  case (Cons fs pre)
  show ?case
  proof (cases "fs_index fs = []")
    case True
    then show ?thesis by simp
  next
    case False
    show ?thesis
    proof (cases "FieldByIndex v (fs_index fs)")
      case None
      with False show ?thesis by simp
    next
      case (Some x)
      with False show ?thesis
        by (cases "encodeValue (fs_name fs) fs x e") (simp_all add: Cons.IH)
    qed
  qed
qed

lemma not_isl_Inr: "\<not> isl r \<Longrightarrow> \<exists>e'. r = Inr e'"
  by (cases r) simp_all

lemma compileField_index:
  assumes "compileField tname f i depth index ss = Inr (depth', ss')"
    and "\<forall>fs \<in> set (ss_l ss). fs_index fs \<noteq> []"
  shows "\<forall>fs \<in> set (ss_l ss'). fs_index fs \<noteq> []"
proof -
  let ?p = "Split (fTag f) (CHR '','')"
  let ?fs0 = "\<lparr>fs_name = fName f, fs_index = [], fs_omitEmpty = False\<rparr>"
  let ?r = "if length ?p > 0 \<and> hd ?p \<noteq> ''-''
            then compileFlags tname (tl ?p) (if length (hd ?p) > 0 then ?fs0\<lparr>fs_name := hd ?p\<rparr> else ?fs0)
            else Inr ?fs0"
  from assms(1) obtain fs where r: "?r = Inr fs"
    by (cases ?r) (simp_all add: compileField_def Let_def split: if_splits)
  define d where "d = (case depth (fs_name fs) of Some d \<Rightarrow> d | None \<Rightarrow> 2 ^ 30)"
  from assms(1) r have
    "(if length index = d
      then Inr (depth, ss\<lparr>ss_m := (ss_m ss)(fs_name fs := None),
                  ss_l := filter (\<lambda>x. fs_name fs \<noteq> fs_name x) (ss_l ss)\<rparr>)
      else if length index < d
      then Inr (depth(fs_name fs \<mapsto> length index),
             ss\<lparr>ss_m := (ss_m ss)(fs_name fs \<mapsto> fs\<lparr>fs_index := index @ [i]\<rparr>),
                ss_l := ss_l ss @ [fs\<lparr>fs_index := index @ [i]\<rparr>]\<rparr>)
      else Inr (depth, ss)) = Inr (depth', ss')"
    unfolding compileField_def Let_def d_def
    by (simp split: if_splits del: One_nat_def)
  then have "ss_l ss' = filter (\<lambda>x. fs_name fs \<noteq> fs_name x) (ss_l ss)
      \<or> ss_l ss' = ss_l ss @ [fs\<lparr>fs_index := index @ [i]\<rparr>] \<or> ss_l ss' = ss_l ss"
    by (auto split: if_splits)
  with assms(2) show ?thesis by auto
qed

lemma compileStructSpec_index:
  "compileStructSpec tname flds i depth index ss = Inr (depth', ss')
     \<Longrightarrow> \<forall>fs \<in> set (ss_l ss). fs_index fs \<noteq> []
     \<Longrightarrow> \<forall>fs \<in> set (ss_l ss'). fs_index fs \<noteq> []"
proof (induction tname flds i depth index ss arbitrary: depth' ss' rule: compileStructSpec.induct)
  case (1 tname i depth index ss)
  then show ?case by simp
next
  case (2 tname f flds i depth index ss)
  note run = "2.prems"(1) and inv = "2.prems"(2)
  show ?case
  proof (cases "fPkgPath f \<noteq> []")
    case True
    with run have "compileStructSpec tname flds (i + 1) depth index ss = Inr (depth', ss')"
      by simp
    from "2.IH"(1) [OF True this inv] show ?thesis .
  next
    case exported: False
    show ?thesis
    proof (cases "fAnonymous f")
      case True
      show ?thesis
      proof (cases "\<exists>tname' flds'. fType f = TStruct tname' flds'")
        case True
        then obtain tname' flds' where t: "fType f = TStruct tname' flds'" by blast
        with exported \<open>fAnonymous f\<close> run
        obtain d1 s1 where
          inner: "compileStructSpec tname' flds' 0 depth (index @ [i]) ss = Inr (d1, s1)"
          and outer: "compileStructSpec tname flds (i + 1) d1 index s1 = Inr (depth', ss')"
          by (auto split: sum.splits)
        have "\<forall>fs \<in> set (ss_l s1). fs_index fs \<noteq> []"
          using "2.IH"(27) [OF exported \<open>fAnonymous f\<close> t inner inv] .
        then show ?thesis
          using "2.IH"(28) [OF exported \<open>fAnonymous f\<close> t inner refl outer] by blast
      next
        case False
        with exported \<open>fAnonymous f\<close> run
        have r: "compileStructSpec tname flds (i + 1) depth index ss = Inr (depth', ss')"
          by (cases "fType f") simp_all
        note step = "2.IH"(2-26,29-35) [OF exported \<open>fAnonymous f\<close> _ r inv]
        show ?thesis
        proof (cases "fType f")
          case (TStruct tname' flds')
          with False show ?thesis by blast
        qed (erule step)+
      qed
    next
      case False
      with exported run
      obtain d1 s1 where
        field: "compileField tname f i depth index ss = Inr (d1, s1)"
        and outer: "compileStructSpec tname flds (i + 1) d1 index s1 = Inr (depth', ss')"
        by (auto split: sum.splits)
      have "\<forall>fs \<in> set (ss_l s1). fs_index fs \<noteq> []"
        using compileField_index [OF field inv] .
      then show ?thesis
        using "2.IH"(36) [OF exported False field refl outer] by blast
    qed
  qed
qed

lemma structSpecForType_index:
  assumes "structSpecForType t = Inr ss" and "fs \<in> set (ss_l ss)"
  shows "fs_index fs \<noteq> []"
proof -
  from assms(1) obtain tname flds where t: "t = TStruct tname flds"
    by (cases t) (simp_all add: structSpecForType_def)
  let ?ss0 = "\<lparr>ss_m = Map.empty, ss_l = [], ss_fields = []\<rparr>"
  from assms(1) t obtain depth ss' where
    c: "compileStructSpec tname flds 0 Map.empty [] ?ss0 = Inr (depth, ss')"
    and l: "ss_l ss = ss_l ss'"
    by (cases "compileStructSpec tname flds 0 Map.empty [] ?ss0")
      (auto simp: structSpecForType_def Let_def)
  have "\<forall>fs \<in> set (ss_l ?ss0). fs_index fs \<noteq> []" by simp
  from compileStructSpec_index [OF c this] assms(2) l show ?thesis by simp
qed

section \<open>Fields flagged omitempty\<close>



lemma encodeScalar_rejected:
  "\<not> isZeroValue s \<Longrightarrow> rejected s \<Longrightarrow> \<exists>err. encodeScalar name fs s e = Inl (aborted err)"
  by (cases s) (simp_all add: rejected_def encoder_defs sint_negative_iff)















section \<open>Maps and the key of the identifier\<close>

lemma writeMap_keys_in_order: "writeMap_keys False kvs e = writeD_items kvs e"
proof (induction kvs arbitrary: e)
  case Nil
  show ?case by simp
next
  case (Cons kv kvs)
  obtain k x where kv: "kv = (k, x)" by (cases kv)
  show ?case
    by (cases "encodeValue k defaultFieldSpec x e") (simp_all add: kv Cons.IH)
qed

lemma writeMap_keys_skip_id:
  "writeMap_keys True kvs e = writeD_items (filter (\<lambda>kv. fst kv \<noteq> ''_id'') kvs) e"
proof (induction kvs arbitrary: e)
  case Nil
  show ?case by simp
next
  case (Cons kv kvs)
  obtain k x where kv: "kv = (k, x)" by (cases kv)
  show ?case
  proof (cases "k = ''_id''")
    case True
    then show ?thesis by (simp add: kv Cons.IH)
  next
    case False
    then show ?thesis
      by (cases "encodeValue k defaultFieldSpec x e") (simp_all add: kv Cons.IH)
  qed
qed

lemma writeMap_top_level_eq_writeD:
  assumes "map_of kvs ''_id'' = Some idValue"
  shows "writeMap TString et (Some kvs) True e
       = writeD ((''_id'', idValue) # filter (\<lambda>kv. fst kv \<noteq> ''_id'') kvs) e"
  using assms
  by (cases "encodeValue ''_id'' defaultFieldSpec idValue (snd (beginDoc e))")
    (simp_all add: writeMap_keys_skip_id beginDoc_def)

lemma writeMap_top_level_idFirst:
  "writeMap TString et (Some kvs) True e = writeD (idFirst kvs) e"
proof (cases "map_of kvs ''_id''")
  case None
  then show ?thesis by (simp add: idFirst_def writeMap_keys_in_order beginDoc_def)
next
  case (Some idValue)
  then show ?thesis by (simp only: writeMap_top_level_eq_writeD idFirst_def option.case)
qed

lemma writeMap_nested_eq_writeD:
  assumes "kindOf kt = KString"
  shows "writeMap kt et (Some kvs) False e = writeD kvs e"
  using assms by (simp add: writeMap_keys_in_order beginDoc_def)


lemma Encode_VMap:
  "Encode buf (VMap kt et mp) =
     handleAbort
       (case writeMap kt et mp True (case buf of None \<Rightarrow> [] | Some b \<Rightarrow> b) of
          Inl p \<Rightarrow> Inl p
        | Inr e' \<Rightarrow> Inr (returnBuffer buf e'))"
  unfolding Encode_def
  by (simp add: typeBSONData_def Let_def del: writeMap.simps)

lemma Encode_VD:
  "Encode buf (VD (Some items)) =
     handleAbort
       (case writeD items (case buf of None \<Rightarrow> [] | Some b \<Rightarrow> b) of
          Inl p \<Rightarrow> Inl p
        | Inr e' \<Rightarrow> Inr (returnBuffer buf e'))"
  unfolding Encode_def
  by (simp add: Let_def del: writeD.simps)




section \<open>Failure of an encoding\<close>

lemma rejected_not_zero: "rejected s \<Longrightarrow> \<not> isZeroValue s"
  by (cases s) (auto simp: rejected_def)

lemma writeD_items_fails:
  "(k, x) \<in> set items \<Longrightarrow> (\<And>e. isl (encodeValue k defaultFieldSpec x e))
     \<Longrightarrow> isl (writeD_items items e)"
proof (induction items arbitrary: e)
  case Nil
  then show ?case by simp
next
  case (Cons kv items)
  obtain k' x' where kv: "kv = (k', x')" by (cases kv)
  show ?case
  proof (cases "encodeValue k' defaultFieldSpec x' e")
    case (Inl p)
    then show ?thesis by (simp add: kv)
  next
    case (Inr e')
    show ?thesis
    proof (cases "(k, x) = (k', x')")
      case True
      with Cons.prems(2) [of e] Inr show ?thesis by simp
    next
      case False
      with Cons.prems(1) kv have "(k, x) \<in> set items" by auto
      from Cons.IH [OF this Cons.prems(2)] show ?thesis by (simp add: kv Inr)
    qed
  qed
qed

lemma writeMap_keys_fails:
  "(k, x) \<in> set kvs \<Longrightarrow> \<not> skipId \<or> k \<noteq> ''_id''
     \<Longrightarrow> (\<And>e. isl (encodeValue k defaultFieldSpec x e))
     \<Longrightarrow> isl (writeMap_keys skipId kvs e)"
proof (induction kvs arbitrary: e)
  case Nil
  then show ?case by simp
next
  case (Cons kv kvs)
  obtain k' x' where kv: "kv = (k', x')" by (cases kv)
  show ?case
  proof (cases "(k, x) = (k', x')")
    case True
    with Cons.prems(2) Cons.prems(3) [of e] show ?thesis
      by (cases "encodeValue k' defaultFieldSpec x' e") (auto simp: kv)
  next
    case False
    with Cons.prems(1) kv have "(k, x) \<in> set kvs" by auto
    from Cons.IH [OF this Cons.prems(2) Cons.prems(3)] show ?thesis
      by (cases "encodeValue k' defaultFieldSpec x' e") (auto simp: kv)
  qed
qed

lemma encodeCodeWithScope_items_fails:
  "(k, x) \<in> set kvs \<Longrightarrow> (\<And>e. isl (encodeValue k defaultFieldSpec (ValueOf x) e))
     \<Longrightarrow> isl (encodeCodeWithScope_items kvs e)"
proof (induction kvs arbitrary: e)
  case Nil
  then show ?case by simp
next
  case (Cons kv kvs)
  obtain k' x' where kv: "kv = (k', x')" by (cases kv)
  show ?case
  proof (cases "(k, x) = (k', x')")
    case True
    with Cons.prems(2) [of e] show ?thesis
      by (cases "encodeValue k' defaultFieldSpec (ValueOf x') e") (auto simp: kv)
  next
    case False
    with Cons.prems(1) kv have "(k, x) \<in> set kvs" by auto
    from Cons.IH [OF this Cons.prems(2)] show ?thesis
      by (cases "encodeValue k' defaultFieldSpec (ValueOf x') e") (simp_all add: kv)
  qed
qed

lemma encodeArray_elems_fails:
  "x \<in> set vs \<Longrightarrow> (\<And>name e. isl (encodeValue name defaultFieldSpec x e))
     \<Longrightarrow> isl (encodeArray_elems n i vs e)"
proof (induction vs arbitrary: i e)
  case Nil
  then show ?case by simp
next
  case (Cons y vs)
  let ?name = "if n < length itoas then itoas ! i else Itoa i"
  show ?case
  proof (cases "x = y")
    case True
    with Cons.prems(2) [of ?name e] show ?thesis
      by (cases "encodeValue ?name defaultFieldSpec y e") (auto simp del: Itoa.simps)
  next
    case False
    with Cons.prems(1) have "x \<in> set vs" by simp
    from Cons.IH [OF this Cons.prems(2)] show ?thesis
      by (cases "encodeValue ?name defaultFieldSpec y e") (simp_all del: Itoa.simps)
  qed
qed

lemma writeStruct_fields_fails:
  "fs \<in> set l \<Longrightarrow> FieldByIndex v (fs_index fs) = Some x
     \<Longrightarrow> (\<And>e. isl (encodeValue (fs_name fs) fs x e))
     \<Longrightarrow> isl (writeStruct_fields l v e)"
proof (induction l arbitrary: e)
  case Nil
  then show ?case by simp
next
  case (Cons f l)
  show ?case
  proof (cases "fs = f")
    case True
    with Cons.prems(2) Cons.prems(3) [of e] show ?thesis
      by (cases "encodeValue (fs_name f) f x e") auto
  next
    case False
    with Cons.prems(1) have "fs \<in> set l" by simp
    from Cons.IH [OF this Cons.prems(2) Cons.prems(3)] show ?thesis
      by (auto split: option.splits sum.splits)
  qed
qed

lemma isl_sum_case: "isl r \<Longrightarrow> isl (case r of Inl p \<Rightarrow> Inl p | Inr e \<Rightarrow> Inr (f e))"
  by (cases r) simp_all

lemma unencodable_encodeValue_fails:
  "unencodable oe v \<Longrightarrow> fs_omitEmpty fs = oe \<Longrightarrow> isl (encodeValue name fs v e)"
proof (induction arbitrary: name fs e rule: unencodable.induct)
  case (unsupported t oe)
  show ?case by (simp add: abort_def)
next
  case (rejected s oe)
  from encodeScalar_rejected [OF rejected_not_zero [OF rejected.hyps] rejected.hyps, of name fs e]
  show ?case by auto
next
  case (MinMax_zero oe)
  then show ?case by (simp add: encodeMinMax_def abort_def)
next
  case (D_item k x items oe)
  have "isl (writeD_items items e')" for e'
    by (rule writeD_items_fails [OF D_item.hyps(1)]) (simp add: D_item.IH defaultFieldSpec_def)
  then show ?case by (simp add: isl_sum_case Let_def beginDoc_def)
next
  case (Map_key kt et kvs oe)
  then show ?case by (simp add: abort_def)
next
  case (Map_entry k x kvs oe kt et)
  have "isl (writeMap_keys False kvs e')" for e'
    by (rule writeMap_keys_fails [OF Map_entry.hyps(1)])
      (simp_all add: Map_entry.IH defaultFieldSpec_def)
  then show ?case by (simp add: isl_sum_case Let_def beginDoc_def abort_def)
next
  case (Slice_elem t x vs oe)
  have "isl (encodeArray_elems n i vs e')" for n i e'
    by (rule encodeArray_elems_fails [OF Slice_elem.hyps(2)])
      (simp add: Slice_elem.IH defaultFieldSpec_def)
  with Slice_elem.hyps(1) show ?case by (simp add: isl_sum_case Let_def beginDoc_def)
next
  case (Array_elem x vs oe t)
  have "isl (encodeArray_elems n i vs e')" for n i e'
    by (rule encodeArray_elems_fails [OF Array_elem.hyps(1)])
      (simp add: Array_elem.IH defaultFieldSpec_def)
  then show ?case by (simp add: isl_sum_case Let_def beginDoc_def)
next
  case (Ptr_elem x oe t)
  then show ?case by (simp add: defaultFieldSpec_def)
next
  case (Interface_elem x oe)
  then show ?case by (simp add: defaultFieldSpec_def)
next
  case (Struct_field n flds ss f vs x oe)
  have "isl (writeStruct_fields (ss_l ss) (VStruct n flds vs) e')" for e'
    by (rule writeStruct_fields_fails [OF Struct_field.hyps(5) Struct_field.hyps(6)])
      (simp add: Struct_field.IH)
  with Struct_field.hyps(1-4) show ?case
    by (simp add: isl_sum_case Let_def beginDoc_def del: writeStruct_fields.simps)
next
  case (Scope_entry n flds vs code kvs k x oe)
  have "isl (encodeCodeWithScope_items kvs e')" for e'
    by (rule encodeCodeWithScope_items_fails [OF Scope_entry.hyps(3)])
      (simp add: Scope_entry.IH defaultFieldSpec_def)
  with Scope_entry.hyps(1,2) show ?case
    by (simp add: isl_sum_case Let_def beginDoc_def typeBSONData_def typeCodeWithScope_def)
qed

lemma encodeValue_ValueOf:
  "encodeValue k defaultFieldSpec (ValueOf x) e = encodeValue k defaultFieldSpec x e"
  by (cases x) (auto simp: ValueOf_def split: option.splits)

lemma writeD_fails:
  assumes "(k, x) \<in> set items" and "unencodable False x"
  shows "isl (writeD items e)"
proof -
  have "isl (writeD_items items e')" for e'
    by (rule writeD_items_fails [OF assms(1)])
      (simp add: unencodable_encodeValue_fails [OF assms(2)] defaultFieldSpec_def)
  then show ?thesis by (simp add: isl_sum_case Let_def beginDoc_def)
qed

lemma writeMap_top_level_fails:
  assumes "(k, x) \<in> set kvs" and "distinct (map fst kvs)" and "unencodable False x"
  shows "isl (writeMap kt et (Some kvs) True e)"
proof (cases "kindOf kt = KString")
  case False
  then show ?thesis by (simp add: abort_def)
next
  case True
  have x: "isl (encodeValue k' defaultFieldSpec x e')" for k' e'
    by (simp add: unencodable_encodeValue_fails [OF assms(3)] defaultFieldSpec_def)
  show ?thesis
  proof (cases "k = ''_id''")
    case id: True
    with assms(1,2) have "map_of kvs ''_id'' = Some x" by simp
    with True x [of "''_id''" "snd (beginDoc e)"] show ?thesis
      by (cases "encodeValue ''_id'' defaultFieldSpec x (snd (beginDoc e))")
        (simp_all add: Let_def beginDoc_def del: writeMap_keys.simps)
  next
    case other: False
    have "isl (writeMap_keys skipId kvs e')" for skipId e'
      by (rule writeMap_keys_fails [OF assms(1)]) (simp_all add: other x)
    then show ?thesis using True
      by (auto simp: isl_sum_case Let_def beginDoc_def split: option.splits sum.splits)
  qed
qed

lemma writeStruct_fails:
  assumes "structSpecForType (TStruct n flds) = Inr ss" and "fs \<in> set (ss_l ss)"
    and "FieldByIndex (VStruct n flds vs) (fs_index fs) = Some x"
    and "unencodable (fs_omitEmpty fs) x"
  shows "isl (writeStruct (VStruct n flds vs) e)"
proof -
  have "isl (writeStruct_fields (ss_l ss) (VStruct n flds vs) e')" for e'
    by (rule writeStruct_fields_fails [OF assms(2,3)])
      (simp add: unencodable_encodeValue_fails [OF assms(4)])
  with assms(1) show ?thesis
    by (simp add: isl_sum_case Let_def beginDoc_def del: writeStruct_fields.simps)
qed

lemma handleAbort_fails:
  "isl r \<Longrightarrow> handleAbort (case r of Inl p \<Rightarrow> Inl p | Inr e' \<Rightarrow> Inr (f e')) \<noteq> Returned out None"
  by (cases r) (auto simp: handleAbort_def split: panic.splits)

lemma Encode_VStruct:
  "TStruct n flds \<noteq> typeBSONData \<Longrightarrow>
   Encode buf (VStruct n flds vs) =
     handleAbort
       (case writeStruct (VStruct n flds vs) (case buf of None \<Rightarrow> [] | Some b \<Rightarrow> b) of
          Inl p \<Rightarrow> Inl p
        | Inr e' \<Rightarrow> Inr (returnBuffer buf e'))"
  unfolding Encode_def
  by (simp add: Let_def del: writeStruct.simps)

lemma Encode_VOther:
  "kindOf t \<in> {KUintptr, KComplex64, KComplex128, KChan, KFunc, KUnsafePointer} \<Longrightarrow>
   Encode buf (VOther t) = Returned None (Some (EncodeTypeError t))"
  unfolding Encode_def
  by (auto simp: Let_def handleAbort_def typeBSONData_def)

lemma Encode_rejected_scalar:
  "rejected s \<or> s = VMinMax 0 \<Longrightarrow>
   Encode buf (VScalar s) = Returned None (Some (EncodeTypeError (scalarType s)))"
  unfolding Encode_def
  by (cases s) (auto simp: Let_def handleAbort_def typeBSONData_def rejected_def)

lemma Encode_VSlice: "Encode buf (VSlice t s) = Returned None (Some (EncodeTypeError (TSlice t)))"
  unfolding Encode_def
  by (simp add: Let_def handleAbort_def typeBSONData_def)

lemma Encode_VArray:
  "Encode buf (VArray t vs) = Returned None (Some (EncodeTypeError (TArray (length vs) t)))"
  unfolding Encode_def
  by (simp add: Let_def handleAbort_def typeBSONData_def)

lemma Encode_VPtr_direct:
  "(\<forall>t' p. x \<noteq> VPtr t' p) \<Longrightarrow> (\<forall>p. x \<noteq> VInterface p)
     \<Longrightarrow> Encode buf (VPtr t (Some x)) = Encode buf x"
  unfolding Encode_def
  by (cases x) (simp_all add: Elem_def)

lemma Encode_VInterface_direct:
  "(\<forall>t' p. x \<noteq> VPtr t' p) \<Longrightarrow> (\<forall>p. x \<noteq> VInterface p)
     \<Longrightarrow> Encode buf (VInterface (Some x)) = Encode buf x"
  unfolding Encode_def
  by (cases x) (simp_all add: Elem_def)

lemma Encode_Elem_indirect:
  assumes "doc = VPtr t (Some x) \<or> doc = VInterface (Some x)"
    and "(\<exists>t' p. x = VPtr t' p) \<or> (\<exists>p. x = VInterface p)"
  shows "\<exists>err. Encode buf doc = Returned None (Some err)"
  using assms unfolding Encode_def
  by (auto simp: Elem_def Let_def handleAbort_def typeBSONData_def)

lemma structSpecForType_typeCodeWithScope:
  "structSpecForType typeCodeWithScope = Inr ss \<Longrightarrow>
   \<lparr>fs_name = ''Scope'', fs_index = [1], fs_omitEmpty = False\<rparr> \<in> set (ss_l ss)"
  by (auto simp: structSpecForType_def typeCodeWithScope_def compileField_def Let_def)

lemma writeStruct_scope_fails:
  assumes "TStruct n flds = typeCodeWithScope" and "asCodeWithScope vs = Some (code, Some kvs)"
    and "(k, x) \<in> set kvs" and "unencodable False (ValueOf x)"
  shows "isl (writeStruct (VStruct n flds vs) e)"
proof (cases "structSpecForType (TStruct n flds)")
  case (Inl msg)
  then show ?thesis by (simp add: beginDoc_def)
next
  case (Inr ss)
  let ?fs = "\<lparr>fs_name = ''Scope'', fs_index = [1], fs_omitEmpty = False\<rparr>"
  from assms(2) obtain kt et where vs: "length vs = 2" "vs ! 1 = VMap kt et (Some kvs)"
    by (auto simp: asCodeWithScope_def split: if_splits val.splits scalar.splits)
  have member: "?fs \<in> set (ss_l ss)"
    using Inr assms(1) structSpecForType_typeCodeWithScope [of ss] by simp
  have field: "FieldByIndex (VStruct n flds vs) (fs_index ?fs) = Some (VMap kt et (Some kvs))"
    using vs by (simp add: Field_def)
  have entry: "isl (encodeValue k defaultFieldSpec x e')" for e'
  proof -
    have "fs_omitEmpty defaultFieldSpec = False" by (simp add: defaultFieldSpec_def)
    from unencodable_encodeValue_fails [OF assms(4) this, of k e']
    show ?thesis by (simp only: encodeValue_ValueOf)
  qed
  have keys: "isl (writeMap_keys False kvs e')" for e'
    by (rule writeMap_keys_fails [OF assms(3)]) (simp_all add: entry)
  have "isl (encodeValue (fs_name ?fs) ?fs (VMap kt et (Some kvs)) e')" for e'
    using keys by (simp add: isl_sum_case abort_def beginDoc_def del: writeMap_keys.simps)
  then have "isl (writeStruct_fields (ss_l ss) (VStruct n flds vs) e')" for e'
    by (rule writeStruct_fields_fails [OF member field])
  with Inr show ?thesis
    by (simp add: isl_sum_case Let_def beginDoc_def del: writeStruct_fields.simps)
qed

lemma Encode_unencodable_direct:
  assumes "unencodable False v"
  shows "Encode buf v \<noteq> Returned out None \<or> (\<exists>t p. v = VPtr t p) \<or> (\<exists>p. v = VInterface p)"
  using assms
proof (cases rule: unencodable.cases)
  case (unsupported t)
  then show ?thesis by (simp add: Encode_VOther)
next
  case (rejected s)
  then show ?thesis by (simp add: Encode_rejected_scalar)
next
  case MinMax_zero
  then show ?thesis by (simp add: Encode_rejected_scalar)
next
  case (D_item k x items)
  then show ?thesis
    by (simp add: Encode_VD handleAbort_fails writeD_fails del: writeD.simps)
next
  case (Map_key kt et kvs)
  then show ?thesis
    by (simp add: Encode_VMap handleAbort_def abort_def)
next
  case (Map_entry k x kvs kt et)
  then show ?thesis
    by (simp add: Encode_VMap handleAbort_fails writeMap_top_level_fails del: writeMap.simps)
next
  case (Slice_elem t x vs)
  then show ?thesis by (simp add: Encode_VSlice)
next
  case (Array_elem x vs t)
  then show ?thesis by (simp add: Encode_VArray)
next
  case (Ptr_elem x t)
  then show ?thesis by simp
next
  case (Interface_elem x)
  then show ?thesis by simp
next
  case (Struct_field n flds ss fs vs x)
  then show ?thesis
    by (simp add: Encode_VStruct handleAbort_fails writeStruct_fails del: writeStruct.simps)
next
  case (Scope_entry n flds vs code kvs k x)
  have "TStruct n flds \<noteq> typeBSONData"
    using Scope_entry(2) by (simp add: typeBSONData_def typeCodeWithScope_def)
  with Scope_entry show ?thesis
    by (simp add: Encode_VStruct handleAbort_fails writeStruct_scope_fails del: writeStruct.simps)
qed

lemma Encode_unencodable_fails:
  assumes "unencodable False doc"
  shows "Encode buf doc \<noteq> Returned out None"
proof -
  have direct: "Encode buf x \<noteq> Returned out None"
    if u: "unencodable False x" for x
  proof -
    consider (a) "Encode buf x \<noteq> Returned out None"
      | (b) t y where "x = VPtr t (Some y)" "unencodable False y"
      | (c) y where "x = VInterface (Some y)" "unencodable False y"
      using Encode_unencodable_direct [OF u, of buf out] u
      by (auto elim: unencodable.cases)
    then show ?thesis
    proof cases
      case a
      then show ?thesis .
    next
      case b
      show ?thesis
      proof (cases "(\<exists>t' p. y = VPtr t' p) \<or> (\<exists>p. y = VInterface p)")
        case True
        from Encode_Elem_indirect [OF _ True, of x t buf] b(1) show ?thesis by auto
      next
        case False
        with Encode_unencodable_direct [OF b(2), of buf out] b(1) show ?thesis
          by (simp add: Encode_VPtr_direct)
      qed
    next
      case c
      show ?thesis
      proof (cases "(\<exists>t' p. y = VPtr t' p) \<or> (\<exists>p. y = VInterface p)")
        case True
        from Encode_Elem_indirect [OF _ True, of x undefined buf] c(1) show ?thesis by auto
      next
        case False
        with Encode_unencodable_direct [OF c(2), of buf out] c(1) show ?thesis
          by (simp add: Encode_VInterface_direct)
      qed
    qed
  qed
  from direct [OF assms] show ?thesis .
qed

lemma Encode_error_without_buffer:
  "Encode buf doc = Returned result (Some err) \<Longrightarrow> result = None"
  unfolding Encode_def handleAbort_def returnBuffer_def Let_def
  by (simp split: sum.splits option.splits panic.splits if_splits prod.splits val.splits
      del: writeStruct.simps writeMap.simps writeD.simps)

lemma writeD_items_aborts:
  assumes "\<forall>e. \<not> isl (writeD_items pre e)"
    and "\<And>e. encodeValue k defaultFieldSpec y e = Inl (aborted err)"
  shows "writeD_items (pre @ (k, y) # post) e = Inl (aborted err)"
proof -
  from assms(1) obtain e' where "writeD_items pre e = Inr e'"
    using not_isl_Inr by blast
  then show ?thesis by (simp add: writeD_items_append assms(2))
qed

lemma writeD_aborts:
  assumes "\<forall>e. \<not> isl (writeD_items pre e)"
    and "\<And>e. encodeValue k defaultFieldSpec y e = Inl (aborted err)"
  shows "writeD (pre @ (k, y) # post) e = Inl (aborted err)"
  using writeD_items_aborts [OF assms, of post]
  by (simp add: beginDoc_def del: writeD_items.simps)

lemma encodeCodeWithScope_items_aborts:
  assumes "\<forall>e. \<not> isl (encodeCodeWithScope_items pre e)"
    and "\<And>e. encodeValue k defaultFieldSpec (ValueOf y) e = Inl (aborted err)"
  shows "encodeCodeWithScope_items (pre @ (k, y) # post) e = Inl (aborted err)"
proof -
  from assms(1) obtain e' where "encodeCodeWithScope_items pre e = Inr e'"
    using not_isl_Inr by blast
  then show ?thesis by (simp add: encodeCodeWithScope_items_append assms(2))
qed

lemma encodeArray_aborts:
  assumes "\<forall>e. \<not> isl (encodeArray_elems (length (pre @ y # post)) 0 pre e)"
    and "\<And>name e. encodeValue name defaultFieldSpec y e = Inl (aborted err)"
  shows "encodeArray name fs (pre @ y # post) e = Inl (aborted err)"
proof -
  have "encodeArray_elems (length (pre @ y # post)) 0 (pre @ y # post) e' = Inl (aborted err)"
    for e'
  proof -
    from assms(1) obtain e'' where
      "encodeArray_elems (length (pre @ y # post)) 0 pre e' = Inr e''"
      using not_isl_Inr by blast
    then show ?thesis by (simp add: encodeArray_elems_append assms(2))
  qed
  then show ?thesis by (simp add: beginDoc_def del: encodeArray_elems.simps)
qed

lemma writeStruct_fields_aborts:
  assumes "\<forall>e. \<not> isl (writeStruct_fields pre v e)"
    and "fs_index fs \<noteq> []" and "FieldByIndex v (fs_index fs) = Some y"
    and "\<And>e. encodeValue (fs_name fs) fs y e = Inl (aborted err)"
  shows "writeStruct_fields (pre @ fs # post) v e = Inl (aborted err)"
proof -
  from assms(1) obtain e' where "writeStruct_fields pre v e = Inr e'"
    using not_isl_Inr by blast
  then show ?thesis by (simp add: writeStruct_fields_append assms(2,3,4))
qed

lemma writeStruct_aborts:
  assumes "structSpecForType (TStruct n flds) = Inr ss" and "ss_l ss = pre @ fs # post"
    and "\<forall>e. \<not> isl (writeStruct_fields pre (VStruct n flds vs) e)"
    and "FieldByIndex (VStruct n flds vs) (fs_index fs) = Some y"
    and "\<And>e. encodeValue (fs_name fs) fs y e = Inl (aborted err)"
  shows "writeStruct (VStruct n flds vs) e = Inl (aborted err)"
proof -
  have "fs_index fs \<noteq> []"
    using structSpecForType_index [OF assms(1), of fs] assms(2) by simp
  from writeStruct_fields_aborts [OF assms(3) this assms(4,5), of post]
  show ?thesis using assms(1,2)
    by (simp add: beginDoc_def del: writeStruct_fields.simps)
qed

lemma reaches_aborts:
  assumes "reaches v x" and "\<forall>name fs e. encodeValue name fs x e = Inl (aborted err)"
  shows "encodeValue name fs v e = Inl (aborted err)"
  using assms
proof (induction arbitrary: name fs e rule: reaches.induct)
  case (D_item pre y x k post)
  then have y: "encodeValue name fs y e = Inl (aborted err)" for name fs e
    by auto
  from writeD_aborts [OF D_item(1) y] show ?case
    by (simp del: writeD.simps)
next
  case (Map_entry kt pre y x et k post)
  then have y: "encodeValue name fs y e = Inl (aborted err)" for name fs e
    by auto
  from Map_entry(2) have "\<forall>e. \<not> isl (writeD_items pre e)"
    by (simp add: writeMap_keys_in_order)
  from writeD_aborts [OF this y] Map_entry(1) show ?case
    by (simp add: writeMap_nested_eq_writeD del: writeD.simps writeMap.simps)
next
  case (Slice_elem t pre y post x)
  then have y: "encodeValue name fs y e = Inl (aborted err)" for name fs e
    by auto
  from encodeArray_aborts [OF Slice_elem(2) y] Slice_elem(1) show ?case
    by (simp del: encodeArray.simps)
next
  case (Array_elem pre y post x t)
  then have y: "encodeValue name fs y e = Inl (aborted err)" for name fs e
    by auto
  from encodeArray_aborts [OF Array_elem(1) y] show ?case
    by (simp del: encodeArray.simps)
next
  case (Ptr_elem y x t)
  then have y: "encodeValue name fs y e = Inl (aborted err)" for name fs e
    by auto
  then show ?case by simp
next
  case (Interface_elem y x)
  then have y: "encodeValue name fs y e = Inl (aborted err)" for name fs e
    by auto
  then show ?case by simp
next
  case (Struct_field n flds ss pre fs' post vs y x)
  then have y: "encodeValue name fs y e = Inl (aborted err)" for name fs e
    by auto
  from writeStruct_aborts [OF Struct_field(5,6,7,8) y] Struct_field(1,2,3) show ?case
    by (simp del: writeStruct.simps)
next
  case (Scope_entry n flds vs code pre k y post x)
  then have y: "encodeValue name fs (ValueOf y) e = Inl (aborted err)" for name fs e
    by auto
  have "TStruct n flds \<noteq> typeBSONData"
    using Scope_entry(1) by (simp add: typeBSONData_def typeCodeWithScope_def)
  moreover have "encodeCodeWithScope name fs code (Some (pre @ (k, y) # post)) e
      = Inl (aborted err)"
    using encodeCodeWithScope_items_aborts [OF Scope_entry(3) y]
    by (simp add: beginDoc_def del: encodeCodeWithScope_items.simps)
  ultimately show ?case using Scope_entry(1,2)
    by (simp del: encodeCodeWithScope.simps)
qed

lemma reaches_step:
  assumes "y = x \<or> reaches y x"
    and "\<And>name fs e. encodeValue name fs x e = Inl (aborted err)"
  shows "encodeValue name fs y e = Inl (aborted err)"
  using assms reaches_aborts [of y x err] by blast

lemma handleAbort_aborts:
  "r = Inl (aborted err) \<Longrightarrow>
   handleAbort (case r of Inl p \<Rightarrow> Inl p | Inr e' \<Rightarrow> Inr (f e')) = Returned None (Some err)"
  by (simp add: handleAbort_def)

lemma document_reaches_aborts:
  assumes "document_reaches v x"
    and leaf: "\<And>name fs e. encodeValue name fs x e = Inl (aborted err)"
  shows "Encode buf v = Returned None (Some err)"
  using assms(1)
proof (cases rule: document_reaches.cases)
  case (D items)
  from D(2) have "writeD items e = Inl (aborted err)" for e
  proof (cases rule: reaches.cases)
    case (D_item pre y k post)
    from writeD_aborts [OF D_item(2) reaches_step [OF D_item(3) leaf]] D_item(1)
    show ?thesis by simp
  qed
  then show ?thesis
    by (simp only: D(1) Encode_VD handleAbort_aborts)
next
  case (Map et kvs)
  from Map(2) have "writeD (idFirst kvs) e = Inl (aborted err)" for e
  proof (cases rule: reaches.cases)
    case (Map_entry pre y k post)
    from Map_entry(3) have "\<forall>e. \<not> isl (writeD_items pre e)"
      by (simp add: writeMap_keys_in_order)
    from writeD_aborts [OF this reaches_step [OF Map_entry(4) leaf]] Map_entry(1)
    show ?thesis by simp
  qed
  then show ?thesis
    by (simp only: Map(1) Encode_VMap writeMap_top_level_idFirst handleAbort_aborts)
next
  case (Struct n flds vs)
  from Struct(3) have "writeStruct (VStruct n flds vs) e = Inl (aborted err)" for e
  proof (cases rule: reaches.cases)
    case (Struct_field ss pre fs post y)
    from writeStruct_aborts [OF Struct_field(5,6,7,8) reaches_step [OF Struct_field(9) leaf]]
    show ?thesis .
  next
    case (Scope_entry code pre k y post)
    with Struct(2) show ?thesis by simp
  qed
  moreover from Struct(3) have "TStruct n flds \<noteq> typeBSONData"
  proof (cases rule: reaches.cases)
    case (Struct_field ss pre fs post y)
    then show ?thesis by simp
  next
    case (Scope_entry code pre k y post)
    with Struct(2) show ?thesis by simp
  qed
  ultimately show ?thesis
    by (simp add: Struct(1) Encode_VStruct handleAbort_def del: writeStruct.simps)
qed

lemma Encode_reaches_aborts:
  assumes "Encode_reaches doc x"
    and leaf: "\<And>name fs e. encodeValue name fs x e = Inl (aborted err)"
  shows "Encode buf doc = Returned None (Some err)"
proof -
  let ?v = "case doc of VInterface p \<Rightarrow> Elem doc | VPtr t p \<Rightarrow> Elem doc | _ \<Rightarrow> doc"
  from assms(1) have d: "document_reaches ?v x" by (simp add: Encode_reaches_def)
  then have shape: "(\<forall>t p. ?v \<noteq> VPtr t p) \<and> (\<forall>p. ?v \<noteq> VInterface p)"
    by (auto elim: document_reaches.cases)
  have "Encode buf doc = Encode buf ?v"
  proof (cases doc)
    case (VPtr t p)
    with d shape show ?thesis
      by (cases p) (auto simp: Elem_def Encode_VPtr_direct elim: document_reaches.cases)
  next
    case (VInterface p)
    with d shape show ?thesis
      by (cases p) (auto simp: Elem_def Encode_VInterface_direct elim: document_reaches.cases)
  qed simp_all
  with document_reaches_aborts [OF d leaf] show ?thesis by simp
qed

lemma encodeScalar_rejected_message:
  assumes "rejected s"
  shows "\<exists>msg \<in> {''bson: uint value does not fit in int64'',
                   ''bson: uint64 value does not fit in int64'',
                   ''bson: object id length != 12'',
                   ''bson: unknown MinMax value''}.
           \<forall>name fs e. encodeValue name fs (VScalar s) e = Inl (aborted (errorString msg))"
  using assms
  by (cases s) (auto simp: rejected_def encoder_defs sint_negative_iff)

lemma Encode_not_document:
  assumes "typeOf doc = Some t" and "t \<noteq> TD" and "t \<noteq> typeBSONData"
    and "kindOf t \<notin> {KStruct, KMap, KPtr, KInterface}"
  shows "Encode buf doc = Returned None (Some (EncodeTypeError t))"
  using assms unfolding Encode_def
  by (cases doc) (auto simp: Let_def handleAbort_def)

lemma Encode_map_key:
  assumes "kindOf kt \<noteq> KString"
  shows "Encode buf (VMap kt et (Some kvs)) = Returned None (Some (EncodeTypeError (TMap kt et)))"
  using assms by (simp add: Encode_VMap handleAbort_def abort_def)

text \<open>
  C4, as the code has it. Whenever \<open>Encode\<close> returns an error, the buffer it returns is nil:
  nothing written before the failure reaches the caller. A document whose traversal meets
  an unencodable value (\<open>unencodable\<close>: a value of a type without an encoder, a map whose
  keys are not strings, an unsigned integer outside the int64 range, an ObjectId whose
  length is not 12, an unknown MinMax), wherever it stands, never yields a buffer. When
  the traversal comes to such a value with everything before it encoded
  (\<open>Encode_reaches\<close>), \<open>Encode\<close> returns nil and the error of that value: for a value of a
  type \<open>t\<close> without an encoder the \<open>EncodeTypeError\<close> of \<open>t\<close>, for a map whose keys are not
  strings the \<open>EncodeTypeError\<close> of the type of the map, and for a value that an encoder
  rejects one of four plain messages, which is no \<open>EncodeTypeError\<close> and names no type
  (\<open>Encode_rejected_value_error_names_no_type\<close>). Applied to a value that is no document
  (neither \<open>D\<close>, \<open>BSONData\<close>, struct nor map, behind at most one pointer or interface),
  and to a map whose keys are not strings, \<open>Encode\<close> returns the \<open>EncodeTypeError\<close> of the
  type of that value.
\<close>

theorem Encode_failure_returns_no_buffer:
  "(Encode buf doc = Returned result (Some err) \<longrightarrow> result = None)
   \<and> (unencodable False doc \<longrightarrow> (\<forall>out. Encode buf doc \<noteq> Returned out None))
   \<and> (Encode_reaches doc (VOther t)
        \<and> kindOf t \<in> {KUintptr, KComplex64, KComplex128, KChan, KFunc, KUnsafePointer} \<longrightarrow>
        Encode buf doc = Returned None (Some (EncodeTypeError t)))
   \<and> (Encode_reaches doc (VMap kt et (Some kvs)) \<and> kindOf kt \<noteq> KString \<longrightarrow>
        Encode buf doc = Returned None (Some (EncodeTypeError (TMap kt et))))
   \<and> (Encode_reaches doc (VScalar s) \<and> rejected s \<longrightarrow>
        (\<exists>msg \<in> {''bson: uint value does not fit in int64'',
                   ''bson: uint64 value does not fit in int64'',
                   ''bson: object id length != 12'',
                   ''bson: unknown MinMax value''}.
           Encode buf doc = Returned None (Some (errorString msg))))
   \<and> (typeOf doc = Some t \<and> t \<noteq> TD \<and> t \<noteq> typeBSONData
        \<and> kindOf t \<notin> {KStruct, KMap, KPtr, KInterface} \<longrightarrow>
        Encode buf doc = Returned None (Some (EncodeTypeError t)))
   \<and> (kindOf kt \<noteq> KString \<longrightarrow>
        Encode buf (VMap kt et (Some kvs)) = Returned None (Some (EncodeTypeError (TMap kt et))))"
proof -
  have 1: "Encode buf doc = Returned result (Some err) \<longrightarrow> result = None"
    by (simp add: Encode_error_without_buffer)
  have 2: "unencodable False doc \<longrightarrow> (\<forall>out. Encode buf doc \<noteq> Returned out None)"
    by (simp add: Encode_unencodable_fails)
  have "Encode buf doc = Returned None (Some (EncodeTypeError t))"
    if "Encode_reaches doc (VOther t)"
    by (rule Encode_reaches_aborts [OF that]) (simp add: abort_def)
  then have 3: "Encode_reaches doc (VOther t)
        \<and> kindOf t \<in> {KUintptr, KComplex64, KComplex128, KChan, KFunc, KUnsafePointer} \<longrightarrow>
        Encode buf doc = Returned None (Some (EncodeTypeError t))"
    by simp
  have "Encode buf doc = Returned None (Some (EncodeTypeError (TMap kt et)))"
    if "Encode_reaches doc (VMap kt et (Some kvs))" "kindOf kt \<noteq> KString"
    by (rule Encode_reaches_aborts [OF that(1)]) (simp add: that(2) abort_def)
  then have 4: "Encode_reaches doc (VMap kt et (Some kvs)) \<and> kindOf kt \<noteq> KString \<longrightarrow>
        Encode buf doc = Returned None (Some (EncodeTypeError (TMap kt et)))"
    by simp
  have 5: "Encode_reaches doc (VScalar s) \<and> rejected s \<longrightarrow>
      (\<exists>msg \<in> {''bson: uint value does not fit in int64'',
                   ''bson: uint64 value does not fit in int64'',
                   ''bson: object id length != 12'',
                   ''bson: unknown MinMax value''}.
           Encode buf doc = Returned None (Some (errorString msg)))"
  proof (intro impI, elim conjE)
    assume that: "Encode_reaches doc (VScalar s)" "rejected s"
    from encodeScalar_rejected_message [OF that(2)] obtain msg where
      m: "msg \<in> {''bson: uint value does not fit in int64'',
                   ''bson: uint64 value does not fit in int64'',
                   ''bson: object id length != 12'',
                   ''bson: unknown MinMax value''}"
      and l: "\<And>name fs e. encodeValue name fs (VScalar s) e = Inl (aborted (errorString msg))"
      by blast
    from Encode_reaches_aborts [OF that(1) l] m
    show "\<exists>msg \<in> {''bson: uint value does not fit in int64'',
                   ''bson: uint64 value does not fit in int64'',
                   ''bson: object id length != 12'',
                   ''bson: unknown MinMax value''}.
           Encode buf doc = Returned None (Some (errorString msg))"
      by (rule bexI)
  qed
  have 6: "typeOf doc = Some t \<and> t \<noteq> TD \<and> t \<noteq> typeBSONData
        \<and> kindOf t \<notin> {KStruct, KMap, KPtr, KInterface} \<longrightarrow>
        Encode buf doc = Returned None (Some (EncodeTypeError t))"
    by (intro impI, elim conjE, rule Encode_not_document)
  have 7: "kindOf kt \<noteq> KString \<longrightarrow>
        Encode buf (VMap kt et (Some kvs)) = Returned None (Some (EncodeTypeError (TMap kt et)))"
    by (simp add: Encode_map_key)
  show ?thesis by (intro conjI 1 2 3 4 5 6 7)
qed

theorem Encode_failure_returns_no_buffer_witness:
  "Encode_reaches
     (VMap TString TInterface
        (Some [(''a'', VInterface (Some (VScalar (VInt 1)))),
               (''c'', VInterface (Some (VOther (TChan TInt))))]))
     (VOther (TChan TInt))
   \<and> kindOf (TChan TInt) \<in> {KUintptr, KComplex64, KComplex128, KChan, KFunc, KUnsafePointer}
   \<and> Encode None
        (VMap TString TInterface
          (Some [(''a'', VInterface (Some (VScalar (VInt 1)))),
                 (''c'', VInterface (Some (VOther (TChan TInt))))]))
       = Returned None (Some (EncodeTypeError (TChan TInt)))
   \<and> Encode_reaches
        (VPtr (TStruct ''T'' [StructField ''A'' [] False TInt [],
                             StructField ''M'' [] False (TMap TInt TInt) []])
           (Some (VStruct ''T'' [StructField ''A'' [] False TInt [],
                                 StructField ''M'' [] False (TMap TInt TInt) []]
                    [VScalar (VInt 1), VMap TInt TInt (Some [])])))
        (VMap TInt TInt (Some []))
   \<and> kindOf TInt \<noteq> KString
   \<and> Encode None
        (VPtr (TStruct ''T'' [StructField ''A'' [] False TInt [],
                             StructField ''M'' [] False (TMap TInt TInt) []])
           (Some (VStruct ''T'' [StructField ''A'' [] False TInt [],
                                 StructField ''M'' [] False (TMap TInt TInt) []]
                    [VScalar (VInt 1), VMap TInt TInt (Some [])])))
       = Returned None (Some (EncodeTypeError (TMap TInt TInt)))
   \<and> Encode_reaches
        (VD (Some [(''n'', VScalar (VUint64 18446744073709551615))]))
        (VScalar (VUint64 18446744073709551615))
   \<and> rejected (VUint64 18446744073709551615)
   \<and> unencodable False (VD (Some [(''n'', VScalar (VUint64 18446744073709551615))]))
   \<and> Encode (Some [1, 2]) (VD (Some [(''n'', VScalar (VUint64 18446744073709551615))]))
       = Returned None (Some (errorString ''bson: uint64 value does not fit in int64''))
   \<and> typeOf (VScalar (VInt 3)) = Some TInt \<and> TInt \<noteq> TD \<and> TInt \<noteq> typeBSONData
   \<and> kindOf TInt \<notin> {KStruct, KMap, KPtr, KInterface}
   \<and> Encode None (VScalar (VInt 3)) = Returned None (Some (EncodeTypeError TInt))
   \<and> Encode None (VMap TInt TInt (Some [])) = Returned None (Some (EncodeTypeError (TMap TInt TInt)))"
proof -
  let ?m = "VMap TString TInterface
        (Some [(''a'', VInterface (Some (VScalar (VInt 1)))),
               (''c'', VInterface (Some (VOther (TChan TInt))))])"
  let ?T = "[StructField ''A'' [] False TInt [], StructField ''M'' [] False (TMap TInt TInt) []]"
  let ?s = "VStruct ''T'' ?T [VScalar (VInt 1), VMap TInt TInt (Some [])]"
  let ?d = "VD (Some [(''n'', VScalar (VUint64 18446744073709551615))])"
  have a: "\<forall>e. \<not> isl (writeMap_keys False [(''a'', VInterface (Some (VScalar (VInt 1))))] e)"
    by (simp add: encoder_defs)
  have "reaches (VMap TString TInterface
      (Some ([(''a'', VInterface (Some (VScalar (VInt 1))))]
             @ (''c'', VInterface (Some (VOther (TChan TInt)))) # [])))
      (VOther (TChan TInt))"
    by (rule reaches.Map_entry [OF _ a]) (simp_all add: reaches.Interface_elem)
  moreover have "idFirst [(''a'', VInterface (Some (VScalar (VInt 1)))),
               (''c'', VInterface (Some (VOther (TChan TInt))))]
      = [(''a'', VInterface (Some (VScalar (VInt 1)))),
         (''c'', VInterface (Some (VOther (TChan TInt))))]"
    by (simp add: idFirst_def)
  ultimately have r1: "Encode_reaches ?m (VOther (TChan TInt))"
    by (simp add: Encode_reaches_def document_reaches.Map)
  have k1: "kindOf (TChan TInt) \<in> {KUintptr, KComplex64, KComplex128, KChan, KFunc, KUnsafePointer}"
    by simp
  from Encode_failure_returns_no_buffer [where doc = ?m and t = "TChan TInt" and buf = None] r1 k1
  have e1: "Encode None ?m = Returned None (Some (EncodeTypeError (TChan TInt)))"
    by blast
  obtain ss where ss: "structSpecForType (TStruct ''T'' ?T) = Inr ss"
    and l: "ss_l ss = [\<lparr>fs_name = ''A'', fs_index = [0], fs_omitEmpty = False\<rparr>]
              @ \<lparr>fs_name = ''M'', fs_index = [1], fs_omitEmpty = False\<rparr> # []"
    by (simp add: structSpecForType_def compileField_def Let_def)
  have f: "\<forall>e. \<not> isl (writeStruct_fields [\<lparr>fs_name = ''A'', fs_index = [0], fs_omitEmpty = False\<rparr>]
      ?s e)"
    by (simp add: Field_def encoder_defs)
  have "reaches ?s (VMap TInt TInt (Some []))"
    by (rule reaches.Struct_field [where y = "VMap TInt TInt (Some [])", OF _ _ _ _ ss l f])
      (simp_all add: Field_def typeBSONData_def typeCodeWithScope_def typeRegexp_def typeTime_def)
  then have r2: "Encode_reaches (VPtr (TStruct ''T'' ?T) (Some ?s)) (VMap TInt TInt (Some []))"
    by (simp add: Encode_reaches_def Elem_def document_reaches.Struct typeCodeWithScope_def)
  have k2: "kindOf TInt \<noteq> KString" by simp
  from Encode_failure_returns_no_buffer
    [where doc = "VPtr (TStruct ''T'' ?T) (Some ?s)" and kt = TInt and et = TInt and kvs = "[]"
      and buf = None] r2 k2
  have e2: "Encode None (VPtr (TStruct ''T'' ?T) (Some ?s))
      = Returned None (Some (EncodeTypeError (TMap TInt TInt)))"
    and e6: "Encode None (VMap TInt TInt (Some []))
      = Returned None (Some (EncodeTypeError (TMap TInt TInt)))"
    by blast+
  have rj: "rejected (VUint64 18446744073709551615)" by (simp add: rejected_def)
  have "reaches (VD (Some ([] @ (''n'', VScalar (VUint64 18446744073709551615)) # [])))
      (VScalar (VUint64 18446744073709551615))"
    by (rule reaches.D_item) simp_all
  then have r3: "Encode_reaches ?d (VScalar (VUint64 18446744073709551615))"
    by (simp add: Encode_reaches_def document_reaches.D)
  have "unencodable False (VScalar (VUint64 18446744073709551615))"
    using rj by (rule unencodable.rejected)
  then have u: "unencodable False ?d"
    by (rule unencodable.D_item [rotated]) simp
  have e3: "Encode (Some [1, 2]) ?d
      = Returned None (Some (errorString ''bson: uint64 value does not fit in int64''))"
    by (simp add: Encode_defs encoder_defs buffer_defs kind_defs)
  have t: "typeOf (VScalar (VInt 3)) = Some TInt" "TInt \<noteq> TD" "TInt \<noteq> typeBSONData"
    "kindOf TInt \<notin> {KStruct, KMap, KPtr, KInterface}"
    by (simp_all add: typeBSONData_def)
  from Encode_failure_returns_no_buffer [where doc = "VScalar (VInt 3)" and t = TInt and buf = None] t
  have e5: "Encode None (VScalar (VInt 3)) = Returned None (Some (EncodeTypeError TInt))"
    by blast
  from r1 k1 e1 r2 k2 e2 r3 rj u e3 t e5 e6 show ?thesis by (intro conjI)
qed

theorem Encode_rejected_value_error_names_no_type:
  "Encode None (VMap TString TInterface
       (Some [(''n'', VInterface (Some (VScalar (VUint64 18446744073709551615))))]))
     = Returned None (Some (errorString ''bson: uint64 value does not fit in int64''))
   \<and> (\<forall>t. errorString ''bson: uint64 value does not fit in int64'' \<noteq> EncodeTypeError t)"
  by (simp add: Encode_defs encoder_defs buffer_defs kind_defs)

end
